theory Spec2Isabelle
  imports Complex_Main "HOL-Library.AList" "HOL-Library.List_Lexorder" "HOL-Library.Char_ord"
begin

section \<open>Python values shared by both modules\<close>

text \<open>
  Exceptions of the Python run time and of the table library are values: every function
  of the model that can raise returns \<open>error + 'a\<close>, with \<open>Inl\<close> for the exception.
\<close>

datatype error = IndexError | KeyError | ValueError | TypeError | AttributeError | AxisError

text \<open>
  \<open>xs[i]\<close> on a Python list: a negative index counts from the end, and only an index
  outside \<open>-len(xs) .. len(xs)-1\<close> raises.
\<close>

definition py_getitem :: "'a list \<Rightarrow> int \<Rightarrow> error + 'a" where
  "py_getitem xs i =
     (if 0 \<le> i \<and> i < int (length xs) then Inr (xs ! nat i)
      else if - int (length xs) \<le> i \<and> i < 0 then Inr (xs ! nat (int (length xs) + i))
      else Inl IndexError)"

section \<open>qis/plots/bars.py\<close>

subsection \<open>Tables handed to the bar renderers\<close>

text \<open>
  An index label is a timestamp or a display string. A table is a \<open>pd.Series\<close> or a
  \<open>pd.DataFrame\<close>: its index, its column names and its values, row by row. A value is
  a number or \<open>NaN\<close>, here \<open>None\<close>.
\<close>

datatype label = Timestamp nat | Str string

datatype table_kind = Series | DataFrame

record table =
  kind :: table_kind
  index :: "label list"
  columns :: "string list"
  vals :: "real option list list"

text \<open>A bar drawn by the backend (\<open>ax.patches\<close>): its corner, width and height.\<close>

record patch =
  p_x :: real
  p_y :: real
  p_width :: real
  p_height :: real

subsection \<open>plot_bars\<close>

text \<open>
  The keyword arguments of \<open>plot_bars\<close> that decide what is computed. \<open>colors_given\<close>
  and \<open>ax_given\<close> say whether \<open>colors\<close> and \<open>ax\<close> were passed; \<open>ylim\<close> is what
  \<open>ax.get_ylim()\<close> returns for the axes drawn on; \<open>kwargs\<close> holds the names of the
  further keyword arguments, which \<open>plot_bars\<close> hands on as \<open>**kwargs\<close>.
\<close>

record bars_args =
  stacked :: bool
  min_max_for_bars_values :: "real option"
  is_add_bar_values :: bool
  is_add_top_bar_values :: bool
  totals :: "real list option"
  is_top_totals :: bool
  colors_given :: bool
  ax_given :: bool
  ylim :: "real \<times> real"
  kwargs :: "string list"

text \<open>
  What the renderer draws for the totals: with \<open>is_top_totals\<close> a text at
  \<open>(x, 0.975)\<close> in blended coordinates, otherwise a horizontal line from \<open>x_min\<close> to
  \<open>x_max\<close> at height \<open>y\<close> with its label annotated at \<open>(x_max, y)\<close>.
\<close>

datatype marker =
    TopText real real string
  | TotalLine real real real string

record bars_result =
  df_after :: table
  fig_created :: bool
  n_colors :: "nat option"
  bar_value_texts :: "(real \<times> real \<times> string) list"
  total_markers :: "marker list"
  ylim_after :: "real \<times> real"

text \<open>
  Lines 56-64: the size of the generated palette, when no colours were passed.
\<close>

definition palette_size :: "bars_args \<Rightarrow> table \<Rightarrow> nat option" where
  "palette_size a df =
     (if colors_given a then None
      else Some (if kind df = Series then 1
                 else if stacked a then length (columns df)
                 else length (index df)))"

text \<open>
  Lines 66-67: \<open>df.index[0]\<close> raises on an empty index; when the first label is a
  timestamp, the index of \<open>df\<close> itself is assigned the list of formatted dates
  (\<open>strftime\<close> is the date pattern applied to a timestamp; a label that is not a
  timestamp has no \<open>strftime\<close> method).
\<close>

fun format_dates :: "(nat \<Rightarrow> string) \<Rightarrow> label list \<Rightarrow> error + label list" where
  "format_dates strftime [] = Inr []"
| "format_dates strftime (Timestamp t # ls) =
     (case format_dates strftime ls of
        Inl e \<Rightarrow> Inl e
      | Inr ls' \<Rightarrow> Inr (Str (strftime t) # ls'))"
| "format_dates strftime (Str s # ls) = Inl AttributeError"

definition reformat_index :: "(nat \<Rightarrow> string) \<Rightarrow> table \<Rightarrow> error + table" where
  "reformat_index strftime df =
     (case index df of
        [] \<Rightarrow> Inl IndexError
      | Timestamp t # ls \<Rightarrow>
          (case format_dates strftime (index df) of
             Inl e \<Rightarrow> Inl e
           | Inr ix \<Rightarrow> Inr (df\<lparr>index := ix\<rparr>))
      | Str s # ls \<Rightarrow> Inr df)"

text \<open>
  Lines 84-109, the loop over \<open>ax.patches\<close>. Its two effects do not interact and are
  modelled by two traversals of the patches: the value annotations (lines 89-104) and
  the stored locations \<open>x_locs\<close>, \<open>x_mins\<close>, \<open>x_maxs\<close> (lines 106-109).
\<close>

definition bar_value_text ::
  "(real \<Rightarrow> string) \<Rightarrow> bars_args \<Rightarrow> patch \<Rightarrow> (real \<times> real \<times> string) list" where
  "bar_value_text var_format a p =
     (let width = p_width p; height = p_height p; y = p_y p; x = p_x p;
          is_put_label = (case min_max_for_bars_values a of
                            None \<Rightarrow> True
                          | Some m \<Rightarrow> \<not> \<bar>height\<bar> \<le> m);
          x_loc = x + 0.2 * width;
          y_loc = (if height > 0 then y + 0.3 * height else y + 0.8 * height)
      in if is_add_bar_values a then
           (if is_put_label \<and> height \<noteq> 0 then [(x_loc, y_loc, var_format height)] else [])
         else if is_add_top_bar_values a then
           (if is_put_label \<and> height \<noteq> 0
            then [(x_loc, 0.95 * snd (ylim a), var_format height)] else [])
         else [])"

fun store_locations ::
  "patch list \<Rightarrow> real list \<Rightarrow> real list \<Rightarrow> real list \<Rightarrow> real list \<times> real list \<times> real list" where
  "store_locations [] x_locs x_mins x_maxs = (x_locs, x_mins, x_maxs)"
| "store_locations (p # ps) x_locs x_mins x_maxs =
     (if p_x p \<notin> set x_locs
      then store_locations ps (x_locs @ [p_x p]) (x_mins @ [p_x p]) (x_maxs @ [p_x p + p_width p])
      else store_locations ps x_locs x_mins x_maxs)"

text \<open>Lines 111-127: one marker per element of \<open>zip(totals, x_locs, x_mins, x_maxs)\<close>.\<close>

definition total_marker ::
  "(real \<Rightarrow> string) \<Rightarrow> bool \<Rightarrow> real \<times> real \<times> real \<times> real \<Rightarrow> marker" where
  "total_marker var_format is_top z =
     (case z of (tot, x_loc, x_min, x_max) \<Rightarrow>
        if is_top then TopText (x_min + 0.2 * (x_max - x_min)) 0.975 (var_format tot)
        else TotalLine x_min x_max tot (var_format tot))"

definition draw_totals ::
  "(real \<Rightarrow> string) \<Rightarrow> bars_args \<Rightarrow> real list \<times> real list \<times> real list \<Rightarrow> marker list" where
  "draw_totals var_format a locs =
     (case totals a of
        None \<Rightarrow> []
      | Some ts \<Rightarrow>
          (case locs of (x_locs, x_mins, x_maxs) \<Rightarrow>
             map (total_marker var_format (is_top_totals a))
                 (zip ts (zip x_locs (zip x_mins x_maxs)))))"

text \<open>
  \<open>plot_bars\<close>. The drawing backend is a parameter: \<open>barplot\<close> gives the patches that
  \<open>sns.barplot\<close> leaves on the axes for the table, \<open>strftime\<close> and \<open>var_format\<close> are
  the two string formatters. The result holds the caller's table as the call leaves it.

  A call that passes a keyword both by name and in \<open>**kwargs\<close> raises \<open>TypeError\<close>:
  \<open>get_n_colors(n=n, **kwargs)\<close> at line 64 (reached when no colours were passed),
  \<open>set_legend(..., labels=labels, ..., **kwargs)\<close> at line 142 and
  \<open>set_ax_tick_labels(..., skip_y_axis=show_y_axis, **kwargs)\<close> at line 169.
\<close>

definition plot_bars ::
  "(nat \<Rightarrow> string) \<Rightarrow> (real \<Rightarrow> string) \<Rightarrow> (table \<Rightarrow> patch list) \<Rightarrow>
   bars_args \<Rightarrow> table \<Rightarrow> error + bars_result" where
  "plot_bars strftime var_format barplot a df =
     (if \<not> colors_given a \<and> ''n'' \<in> set (kwargs a) then Inl TypeError
      else
        case reformat_index strftime df of
          Inl e \<Rightarrow> Inl e
        | Inr df1 \<Rightarrow>
            let patches = barplot df1;
                locs = store_locations patches [] [] []
            in if ''labels'' \<in> set (kwargs a) \<or> ''skip_y_axis'' \<in> set (kwargs a)
               then Inl TypeError
               else
                 Inr \<lparr>df_after = df1,
                      fig_created = (\<not> ax_given a),
                      n_colors = palette_size a df,
                      bar_value_texts = concat (map (bar_value_text var_format a) patches),
                      total_markers = draw_totals var_format a locs,
                      ylim_after = (if totals a \<noteq> None \<and> is_top_totals a
                                    then (fst (ylim a), snd (ylim a) * 1.1) else ylim a)\<rparr>)"

text \<open>
  The bars by which the totals are placed, said without the loop: the positions at
  which the backend drew a bar, each once, in the order in which a bar first stood there;
  the first bar drawn at a position; and these bars, one for every position.
\<close>

definition bar_positions :: "patch list \<Rightarrow> real list" where
  "bar_positions ps = rev (remdups (rev (map p_x ps)))"

definition first_bar_at :: "patch list \<Rightarrow> real \<Rightarrow> patch" where
  "first_bar_at ps x = hd (filter (\<lambda>p. p_x p = x) ps)"

definition category_bars :: "patch list \<Rightarrow> patch list" where
  "category_bars ps = map (first_bar_at ps) (bar_positions ps)"

text \<open>The marker of a total on a bar, as lines 117-127 draw it.\<close>

definition marker_on :: "(real \<Rightarrow> string) \<Rightarrow> bool \<Rightarrow> patch \<Rightarrow> real \<Rightarrow> marker" where
  "marker_on var_format is_top p tot =
     (if is_top then TopText (p_x p + 0.2 * p_width p) 0.975 (var_format tot)
      else TotalLine (p_x p) (p_x p + p_width p) tot (var_format tot))"

subsection \<open>plot_vbars\<close>

text \<open>
  The capabilities \<open>plot_vbars\<close> takes from outside: the value formatter
  \<open>var_format.format\<close> on a number and on \<open>NaN\<close>, the percentage
  \<open>'{:.0%}'.format(c/total)\<close> (of \<open>c\<close> and \<open>total\<close>, a floating-point division that
  does not raise), \<open>str\<close> of an index label, and the two palette generators of
  \<open>qis.plots.utils\<close>.
\<close>

record vbars_env =
  var_format :: "real \<Rightarrow> string"
  var_format_nan :: string
  perc_format :: "real \<Rightarrow> real option \<Rightarrow> string"
  label_str :: "label \<Rightarrow> string"
  compute_heatmap_colors :: "real option list \<Rightarrow> string list"
  get_n_mlt_colors :: "nat \<Rightarrow> string list"

record vbars_args =
  v_is_add_bar_values :: bool
  add_bar_perc_values :: bool
  v_totals :: "real list option"
  v_colors :: "string list option"
  add_bar_value_at_mid :: bool
  add_total_bar :: bool
  add_total_to_index :: bool
  add_total_to_left :: bool
  is_category_names_colors :: bool

text \<open>One \<open>ax.barh\<close> call: a segment per row, with its left edge and its width.\<close>

record hbar =
  b_label :: string
  b_widths :: "real list"
  b_lefts :: "real list"
  b_color :: "string list"

text \<open>One \<open>ax.text(x_loc, y, label)\<close> call; \<open>x_loc\<close> is a number or \<open>NaN\<close>.\<close>

record vtext =
  t_x :: "real option"
  t_y :: nat
  t_label :: string

record vbars_result =
  v_df_after :: table
  v_labels :: "label list"
  neg_bars :: "hbar list"
  neg_texts :: "vtext list list"
  pos_bars :: "hbar list"
  pos_texts :: "vtext list list"
  total_ticks :: "(real option \<times> nat) list"
  total_texts :: "vtext list"

text \<open>\<open>np.isclose(a, b)\<close> with its default tolerances \<open>rtol = 1e-05\<close>, \<open>atol = 1e-08\<close>.\<close>

definition isclose :: "real \<Rightarrow> real \<Rightarrow> bool" where
  "isclose a b = (\<bar>a - b\<bar> \<le> 1 / 10 ^ 8 + 1 / 10 ^ 5 * \<bar>b\<bar>)"

text \<open>
  \<open>np.where(v < 0.0, v, 0.0)\<close> and \<open>np.where(v > 0.0, v, 0.0)\<close>, for one entry: a
  comparison with \<open>NaN\<close> is false, so a \<open>NaN\<close> entry gives \<open>0.0\<close> in both.
\<close>

definition where_neg :: "real option \<Rightarrow> real" where
  "where_neg v = (case v of None \<Rightarrow> 0 | Some x \<Rightarrow> if x < 0 then x else 0)"

definition where_pos :: "real option \<Rightarrow> real" where
  "where_pos v = (case v of None \<Rightarrow> 0 | Some x \<Rightarrow> if x > 0 then x else 0)"

text \<open>
  Addition of two values, \<open>NaN\<close> when either is; \<open>np.sum\<close> and \<open>np.cumsum\<close> of one
  row, and \<open>np.max\<close>, which raises on an empty array and is \<open>NaN\<close> when an entry is.
\<close>

definition add_val :: "real option \<Rightarrow> real option \<Rightarrow> real option" where
  "add_val a b = (case (a, b) of (Some x, Some y) \<Rightarrow> Some (x + y) | _ \<Rightarrow> None)"

definition np_sum :: "real option list \<Rightarrow> real option" where
  "np_sum row = (if None \<in> set row then None else Some (sum_list (map the row)))"

fun cumsum_from :: "real option \<Rightarrow> real option list \<Rightarrow> real option list" where
  "cumsum_from acc [] = []"
| "cumsum_from acc (x # xs) = add_val acc x # cumsum_from (add_val acc x) xs"

definition np_max :: "real option list \<Rightarrow> error + real option" where
  "np_max xs =
     (case xs of
        [] \<Rightarrow> Inl ValueError
      | x # r \<Rightarrow> Inr (if None \<in> set xs then None else Some (fold max (map the r) (the x))))"

text \<open>\<open>var_format.format\<close> of a value that may be \<open>NaN\<close>.\<close>

definition format_value :: "vbars_env \<Rightarrow> real option \<Rightarrow> string" where
  "format_value E v = (case v of None \<Rightarrow> var_format_nan E | Some x \<Rightarrow> var_format E x)"

text \<open>
  Lines 213-214: with \<open>add_total_to_index\<close> and \<open>totals\<close>, the index of \<open>df\<close> itself is
  assigned the labels with the formatted totals; \<open>zip\<close> stops at the shorter list, and
  assigning an index of another length raises.
\<close>

definition index_with_totals :: "vbars_env \<Rightarrow> vbars_args \<Rightarrow> table \<Rightarrow> error + table" where
  "index_with_totals E a df =
     (case v_totals a of
        None \<Rightarrow> Inr df
      | Some ts \<Rightarrow>
          if add_total_to_index a then
            (let ix = map (\<lambda>(x, tot). Str (label_str E x @ '' '' @ var_format E tot))
                          (zip (index df) ts)
             in if length ix = length (index df) then Inr (df\<lparr>index := ix\<rparr>)
                else Inl ValueError)
          else Inr df)"

text \<open>
  Line 216: the dictionary from index label to row. A label met again keeps its place
  and takes the later row.
\<close>

definition iterrows_dict :: "table \<Rightarrow> (label \<times> real option list) list" where
  "iterrows_dict df = fold (\<lambda>(k, row) d. AList.update k row d) (zip (index df) (vals df)) []"

text \<open>Lines 222-232: the colours.\<close>

definition choose_colors :: "vbars_env \<Rightarrow> vbars_args \<Rightarrow> table \<Rightarrow> string list" where
  "choose_colors E a df =
     (case v_colors a of
        None \<Rightarrow>
          if is_category_names_colors a then
            (if length (columns df) = 1 then compute_heatmap_colors E (concat (vals df))
             else compute_heatmap_colors E (map np_sum (vals df)))
          else get_n_mlt_colors E (length (columns df))
      | Some cs \<Rightarrow> concat (replicate (length (columns df)) cs))"

definition col_colors :: "vbars_args \<Rightarrow> string list \<Rightarrow> nat \<Rightarrow> error + string list" where
  "col_colors a colors i =
     (if is_category_names_colors a then
        (case py_getitem colors (int i) of Inl e \<Rightarrow> Inl e | Inr c \<Rightarrow> Inr [c])
      else Inr colors)"

text \<open>
  Lines 264-278 and 297-311, the same in both passes: the labels of one column's
  segments, from the segment centres and the widths. \<open>bar_value_at_max\<close> is read only
  when \<open>add_bar_value_at_mid\<close> is off, and is then a number or \<open>NaN\<close>.
\<close>

definition segment_texts ::
  "vbars_env \<Rightarrow> vbars_args \<Rightarrow> real option \<Rightarrow> real option list \<Rightarrow> real list \<Rightarrow> real list \<Rightarrow>
   vtext list" where
  "segment_texts E a bar_value_at_max tots xcenters widths =
     (if v_is_add_bar_values a then
        concat (map (\<lambda>(y, (x, c)).
                  if \<not> isclose c 0 then
                    [\<lparr>t_x = (if add_bar_value_at_mid a then Some x else bar_value_at_max),
                      t_y = y,
                      t_label = (if add_bar_perc_values a
                                 then var_format E c @ '' / '' @ perc_format E c (tots ! y)
                                 else var_format E c)\<rparr>]
                  else [])
               (List.enumerate 0 (zip xcenters widths)))
      else [])"

text \<open>
  Lines 248-278, the negative pass over \<open>enumerate(category_names)\<close>. \<open>last_starts\<close> is
  \<open>None\<close> before the first column.
\<close>

fun negative_pass ::
  "vbars_env \<Rightarrow> vbars_args \<Rightarrow> real option list list \<Rightarrow> string list \<Rightarrow> real option \<Rightarrow>
   real option list \<Rightarrow> real list \<Rightarrow> (nat \<times> string) list \<Rightarrow> real list option \<Rightarrow>
   error + (hbar list \<times> vtext list list \<times> real list option)" where
  "negative_pass E a np_data colors bvm tots initial_starts [] last_starts =
     Inr ([], [], last_starts)"
| "negative_pass E a np_data colors bvm tots initial_starts ((i, colname) # rest) last_starts =
     (case col_colors a colors i of
        Inl e \<Rightarrow> Inl e
      | Inr cc \<Rightarrow>
          let widths = map (\<lambda>row. where_neg (row ! i)) np_data;
              starts = (case last_starts of None \<Rightarrow> initial_starts | Some ls \<Rightarrow> ls);
              last_starts' = map2 (+) starts (map abs widths);
              bar = \<lparr>b_label = colname, b_widths = map abs widths, b_lefts = starts,
                     b_color = cc\<rparr>;
              xcenters = map2 (+) starts (map (\<lambda>w. \<bar>w\<bar> / 2) widths);
              texts = segment_texts E a bvm tots xcenters widths
          in case negative_pass E a np_data colors bvm tots initial_starts rest
                    (Some last_starts') of
               Inl e \<Rightarrow> Inl e
             | Inr (bars, txts, ls) \<Rightarrow> Inr (bar # bars, texts # txts, ls))"

text \<open>
  Lines 282-311, the positive pass. Where \<open>last_starts\<close> is \<open>None\<close> the left edge is
  the scalar \<open>0\<close>, for every row.
\<close>

fun positive_pass ::
  "vbars_env \<Rightarrow> vbars_args \<Rightarrow> real option list list \<Rightarrow> string list \<Rightarrow> real option \<Rightarrow>
   real option list \<Rightarrow> (nat \<times> string) list \<Rightarrow> real list option \<Rightarrow>
   error + (hbar list \<times> vtext list list \<times> real list option)" where
  "positive_pass E a np_data colors bvm tots [] last_starts = Inr ([], [], last_starts)"
| "positive_pass E a np_data colors bvm tots ((i, colname) # rest) last_starts =
     (case col_colors a colors i of
        Inl e \<Rightarrow> Inl e
      | Inr cc \<Rightarrow>
          let widths = map (\<lambda>row. where_pos (row ! i)) np_data;
              starts = (case last_starts of
                          None \<Rightarrow> replicate (length np_data) 0
                        | Some ls \<Rightarrow> ls);
              last_starts' = (case last_starts of
                                None \<Rightarrow> widths
                              | Some ls \<Rightarrow> map2 (+) ls widths);
              bar = \<lparr>b_label = colname, b_widths = widths, b_lefts = starts, b_color = cc\<rparr>;
              xcenters = map2 (+) starts (map (\<lambda>w. w / 2) widths);
              texts = segment_texts E a bvm tots xcenters widths
          in case positive_pass E a np_data colors bvm tots rest (Some last_starts') of
               Inl e \<Rightarrow> Inl e
             | Inr (bars, txts, ls) \<Rightarrow> Inr (bar # bars, texts # txts, ls))"

text \<open>
  Lines 322-327: the \<open>total:\<close> labels to the right of the positive segments
  (\<open>np.nansum\<close> of the positive parts, which hold no \<open>NaN\<close>).
\<close>

definition total_left_texts ::
  "vbars_env \<Rightarrow> real option list list \<Rightarrow> real option list \<Rightarrow> vtext list" where
  "total_left_texts E np_data tots =
     (let widths = map (\<lambda>row. sum_list (map where_pos row)) np_data;
          shift = max (0.2 * fold max (tl widths) (hd widths)) 0.2
      in map (\<lambda>(idx, tot). \<lparr>t_x = Some (widths ! idx + shift), t_y = idx,
                              t_label = ''total: '' @ format_value E tot\<rparr>)
             (List.enumerate 0 tots))"

text \<open>
  \<open>plot_vbars\<close>, lines 211-327. \<open>np.sum(np_data, axis=1)\<close> raises on a table with no
  rows (the array has one axis); \<open>np.max\<close> raises on no entries; \<open>0*last_starts\<close>
  raises when no column was drawn.
\<close>

definition plot_vbars :: "vbars_env \<Rightarrow> vbars_args \<Rightarrow> table \<Rightarrow> error + vbars_result" where
  "plot_vbars E a df =
     (let category_names = columns df in
      case index_with_totals E a df of
        Inl e \<Rightarrow> Inl e
      | Inr df1 \<Rightarrow>
          let results = iterrows_dict df1;
              labels = map fst results;
              np_data = map snd results
          in if np_data = [] then Inl AxisError
             else
               let tots = map np_sum np_data;
                   colors = choose_colors E a df1
               in case (if add_bar_value_at_mid a then Inr None
                        else np_max (concat (map (cumsum_from (Some 0)) np_data))) of
                    Inl e \<Rightarrow> Inl e
                  | Inr bvm \<Rightarrow>
                      let initial_starts = map (\<lambda>row. sum_list (map where_neg row)) np_data
                      in case negative_pass E a np_data colors bvm tots initial_starts
                                (List.enumerate 0 category_names) None of
                           Inl e \<Rightarrow> Inl e
                         | Inr (nbars, ntexts, last_starts) \<Rightarrow>
                             (case last_starts of
                                None \<Rightarrow> Inl TypeError
                              | Some ls \<Rightarrow>
                                  (case positive_pass E a np_data colors bvm tots
                                          (List.enumerate 0 category_names)
                                          (Some (map ((*) 0) ls)) of
                                     Inl e \<Rightarrow> Inl e
                                   | Inr (pbars, ptexts, ls') \<Rightarrow>
                                       Inr \<lparr>v_df_after = df1,
                                            v_labels = labels,
                                            neg_bars = nbars,
                                            neg_texts = ntexts,
                                            pos_bars = pbars,
                                            pos_texts = ptexts,
                                            total_ticks =
                                              (if add_total_bar a
                                               then map (\<lambda>(idx, tot). (tot, idx))
                                                        (List.enumerate 0 tots)
                                               else []),
                                            total_texts =
                                              (if add_total_to_left a
                                               then total_left_texts E np_data tots
                                               else [])\<rparr>)))"

text \<open>The values the renderer lays out, row by row: \<open>np_data\<close> of line 219.\<close>

definition np_data_of :: "table \<Rightarrow> real option list list" where
  "np_data_of df = map snd (iterrows_dict df)"



section \<open>qis/portfolio/multi_portfolio_data.py\<close>

subsection \<open>The table library\<close>

text \<open>
  The aggregator works on \<open>pandas\<close> tables. A value is a number or \<open>NaN\<close>, here
  \<open>None\<close>. A series has a name, an index and one value per index label; a frame has an
  index, column names and one row of values per index label. The index type is a
  parameter: timestamps (\<open>nat\<close>) for price tables, instrument names for attribution.
\<close>

record 'i series =
  s_name :: string
  s_index :: "'i list"
  s_values :: "real option list"

record 'i frame =
  f_index :: "'i list"
  f_columns :: "string list"
  f_rows :: "real option list list"

definition to_frame :: "'i series \<Rightarrow> 'i frame" where
  "to_frame s = \<lparr>f_index = s_index s, f_columns = [s_name s],
                 f_rows = map (\<lambda>v. [v]) (s_values s)\<rparr>"

text \<open>The position of a label in an index (\<open>get_loc\<close> on an index of unique labels).\<close>

fun index_of :: "'a \<Rightarrow> 'a list \<Rightarrow> nat option" where
  "index_of x [] = None"
| "index_of x (y # ys) = (if x = y then Some 0 else map_option Suc (index_of x ys))"

text \<open>The value of a series at a label; \<open>NaN\<close> at a label it does not have.\<close>

definition value_at :: "'i series \<Rightarrow> 'i \<Rightarrow> real option" where
  "value_at s t = (case index_of t (s_index s) of None \<Rightarrow> None | Some j \<Rightarrow> s_values s ! j)"

text \<open>The row of a frame at a label; a label the frame does not have gives \<open>NaN\<close>s.\<close>

definition row_at :: "'i frame \<Rightarrow> 'i \<Rightarrow> real option list" where
  "row_at F r =
     (case index_of r (f_index F) of
        None \<Rightarrow> replicate (length (f_columns F)) None
      | Some i \<Rightarrow> f_rows F ! i)"

text \<open>
  \<open>reindex\<close> to new row labels and to new column labels, by label. These describe the
  library on tables whose labels are unique.
\<close>

definition reindex_rows :: "'i frame \<Rightarrow> 'i list \<Rightarrow> 'i frame" where
  "reindex_rows F new_index = F\<lparr>f_index := new_index, f_rows := map (row_at F) new_index\<rparr>"

definition reindex_columns :: "'i frame \<Rightarrow> string list \<Rightarrow> 'i frame" where
  "reindex_columns F new_columns =
     F\<lparr>f_columns := new_columns,
       f_rows := map (\<lambda>row. map (\<lambda>c. case index_of c (f_columns F) of
                                          None \<Rightarrow> None
                                        | Some j \<Rightarrow> row ! j) new_columns)
                     (f_rows F)\<rparr>"

text \<open>
  The union of two indexes. For timestamps, and for an outer join, the library returns
  the first index when the second is empty or equal to it, the second when the first is
  empty, and the sorted union otherwise. For other labels \<open>pd.concat\<close> keeps the order
  of appearance.
\<close>

definition union_sorted :: "'a::linorder list \<Rightarrow> 'a list \<Rightarrow> 'a list" where
  "union_sorted xs ys =
     (if ys = [] \<or> xs = ys then xs
      else if xs = [] then ys
      else sort (remdups (xs @ ys)))"

definition union_appearance :: "'a list \<Rightarrow> 'a list \<Rightarrow> 'a list" where
  "union_appearance xs ys = xs @ filter (\<lambda>y. y \<notin> set xs) (remdups ys)"

text \<open>
  \<open>pd.concat(objs, axis=1)\<close>: nothing to concatenate raises; the index is the union of
  the indexes; an object with another index is reindexed to it, which raises when its own
  labels are not unique; the columns are those of the objects, in order.
\<close>

definition pd_concat ::
  "('i list \<Rightarrow> 'i list \<Rightarrow> 'i list) \<Rightarrow> 'i frame list \<Rightarrow> error + 'i frame" where
  "pd_concat join Fs =
     (case Fs of
        [] \<Rightarrow> Inl ValueError
      | F0 # rest \<Rightarrow>
          let idx = foldl join (f_index F0) (map f_index rest)
          in if list_ex (\<lambda>F. f_index F \<noteq> idx \<and> \<not> distinct (f_index F)) Fs
             then Inl ValueError
             else Inr \<lparr>f_index = idx,
                       f_columns = concat (map f_columns Fs),
                       f_rows = map (\<lambda>k. concat (map (\<lambda>F. if f_index F = idx then f_rows F ! k
                                                              else row_at F (idx ! k)) Fs))
                                    [0..<length idx]\<rparr>)"

text \<open>
  \<open>reindex(index=..., method='ffill')\<close>. On a unique increasing index a new label takes
  the row of the last label not after it; on a unique decreasing index the row of an equal
  label, or else of the last label above it. A table asked for its own index is returned
  as it is, whatever its index (on a unique increasing index these are the padded rows:
  every label is the last label not after itself). Any other index raises.
\<close>

definition pad_increasing :: "'a::linorder list \<Rightarrow> 'a \<Rightarrow> nat option" where
  "pad_increasing idx t =
     (let n = length (takeWhile (\<lambda>x. x \<le> t) idx) in if n = 0 then None else Some (n - 1))"

definition pad_decreasing :: "'a::linorder list \<Rightarrow> 'a \<Rightarrow> nat option" where
  "pad_decreasing idx t =
     (case index_of t idx of
        Some i \<Rightarrow> Some i
      | None \<Rightarrow> (let n = length (takeWhile (\<lambda>x. x > t) idx)
                 in if n = 0 then None else Some (n - 1)))"

definition padded_rows ::
  "'i frame \<Rightarrow> ('i \<Rightarrow> nat option) \<Rightarrow> 'i list \<Rightarrow> real option list list" where
  "padded_rows F pad new_index =
     map (\<lambda>t. case pad t of
                 None \<Rightarrow> replicate (length (f_columns F)) None
               | Some i \<Rightarrow> f_rows F ! i) new_index"

definition reindex_ffill :: "('i::linorder) frame \<Rightarrow> 'i list \<Rightarrow> error + 'i frame" where
  "reindex_ffill F new_index =
     (if distinct (f_index F) \<and> sorted (f_index F) then
        Inr (F\<lparr>f_index := new_index,
                f_rows := padded_rows F (pad_increasing (f_index F)) new_index\<rparr>)
      else if new_index = f_index F then Inr F
      else if distinct (f_index F) \<and> sorted (rev (f_index F)) then
        Inr (F\<lparr>f_index := new_index,
                f_rows := padded_rows F (pad_decreasing (f_index F)) new_index\<rparr>)
      else Inl ValueError)"

text \<open>
  \<open>asfreq(freq, method='ffill')\<close> for a frequency of a fixed step: the new index runs
  from the least to the greatest label in steps, and the table is reindexed to it.
  Calendar-anchored frequencies are not described.
\<close>

datatype freq = Every nat

definition date_range :: "nat \<Rightarrow> nat \<Rightarrow> nat \<Rightarrow> nat list" where
  "date_range lo hi step = map (\<lambda>k. lo + k * step) [0..<(hi - lo) div step + 1]"

definition asfreq :: "nat frame \<Rightarrow> freq \<Rightarrow> error + nat frame" where
  "asfreq F fr =
     (case fr of Every step \<Rightarrow>
        (case f_index F of
           [] \<Rightarrow> Inl ValueError
         | t # ts \<Rightarrow>
             if step = 0 then Inl ValueError
             else reindex_ffill F (date_range (fold min ts t) (fold max ts t) step)))"

text \<open>
  \<open>df.align(other, join='outer', axis=None)\<close>: both tables reindexed to the union of
  the row labels and to the union of the column labels.
\<close>

definition align_outer :: "('i::linorder) frame \<Rightarrow> 'i frame \<Rightarrow> 'i frame \<times> 'i frame" where
  "align_outer F G =
     (let rows = union_sorted (f_index F) (f_index G);
          cols = union_sorted (f_columns F) (f_columns G)
      in (reindex_columns (reindex_rows F rows) cols,
          reindex_columns (reindex_rows G rows) cols))"

definition fillna :: "real \<Rightarrow> 'i frame \<Rightarrow> 'i frame" where
  "fillna x F = F\<lparr>f_rows := map (map (\<lambda>v. case v of None \<Rightarrow> Some x | Some y \<Rightarrow> Some y))
                                 (f_rows F)\<rparr>"

text \<open>Subtraction of two values: \<open>NaN\<close> when either is.\<close>

definition sub_val :: "real option \<Rightarrow> real option \<Rightarrow> real option" where
  "sub_val a b = (case (a, b) of (Some x, Some y) \<Rightarrow> Some (x - y) | _ \<Rightarrow> None)"

text \<open>
  \<open>df.subtract(other)\<close> on two tables with the same labels, entry by entry, and on any
  two tables, which are aligned first.
\<close>

definition subtract_aligned :: "'i frame \<Rightarrow> 'i frame \<Rightarrow> 'i frame" where
  "subtract_aligned F G = F\<lparr>f_rows := map2 (map2 sub_val) (f_rows F) (f_rows G)\<rparr>"

definition subtract :: "('i::linorder) frame \<Rightarrow> 'i frame \<Rightarrow> 'i frame" where
  "subtract F G = (case align_outer F G of (F', G') \<Rightarrow> subtract_aligned F' G')"

text \<open>
  \<open>df.cumsum(axis=0)\<close>: the running sum down each column; a \<open>NaN\<close> stays \<open>NaN\<close> and
  is skipped by the sum.
\<close>

fun cumsum_rows :: "real list \<Rightarrow> real option list list \<Rightarrow> real option list list" where
  "cumsum_rows acc [] = []"
| "cumsum_rows acc (row # rows) =
     map2 (\<lambda>a v. case v of None \<Rightarrow> None | Some x \<Rightarrow> Some (a + x)) acc row
     # cumsum_rows (map2 (\<lambda>a v. case v of None \<Rightarrow> a | Some x \<Rightarrow> a + x) acc row) rows"

definition cumsum :: "'i frame \<Rightarrow> 'i frame" where
  "cumsum F = F\<lparr>f_rows := cumsum_rows (replicate (length (f_columns F)) 0) (f_rows F)\<rparr>"

text \<open>The negation of a table, entry by entry.\<close>

definition neg_frame :: "'i frame \<Rightarrow> 'i frame" where
  "neg_frame F = F\<lparr>f_rows := map (map (map_option uminus)) (f_rows F)\<rparr>"

text \<open>
  \<open>df[name]\<close>: the columns of that name (one, when the names are unique), and
  \<open>KeyError\<close> when there is none.
\<close>

definition getitem_column :: "'i frame \<Rightarrow> string \<Rightarrow> error + 'i frame" where
  "getitem_column F name =
     (let js = filter (\<lambda>j. f_columns F ! j = name) [0..<length (f_columns F)]
      in if js = [] then Inl KeyError
         else Inr \<lparr>f_index = f_index F, f_columns = map (\<lambda>j. f_columns F ! j) js,
                   f_rows = map (\<lambda>row. map (\<lambda>j. row ! j) js) (f_rows F)\<rparr>)"

text \<open>The column at a position, as a one-column table.\<close>

definition column_at :: "'i frame \<Rightarrow> nat \<Rightarrow> 'i frame" where
  "column_at F j = \<lparr>f_index = f_index F, f_columns = [f_columns F ! j],
                    f_rows = map (\<lambda>row. [row ! j]) (f_rows F)\<rparr>"

subsection \<open>Portfolio results\<close>

text \<open>
  \<open>PortfolioData\<close>, \<open>AttributionMetric\<close>, \<open>TimePeriod\<close> and \<open>agg_df_by_groups_ax1\<close>
  are defined in modules that are not among the sources. A portfolio is the record of
  what its attributes and methods return; \<open>locate\<close> and the grouping are parameters.
\<close>

datatype time_period = TimePeriod "nat option" "nat option"

datatype attribution_metric = PNL | OtherMetric string

record portfolio_data =
  nav :: "nat series"
  instrument_pnl :: "nat frame"
  group_data :: "(string \<times> string) list"
  group_order :: "string list"
  get_exposures_grouped :: "time_period option \<Rightarrow> nat frame"
  get_performance_data :: "attribution_metric \<Rightarrow> time_period option \<Rightarrow> string series"
  get_ac_navs_of :: "time_period option \<Rightarrow> nat frame"

record ext =
  locate :: "time_period \<Rightarrow> nat frame \<Rightarrow> nat frame"
  agg_df_by_groups_ax1 ::
    "nat frame \<Rightarrow> (string \<times> string) list \<Rightarrow> string \<Rightarrow> string list \<Rightarrow> nat frame"

definition get_portfolio_nav :: "portfolio_data \<Rightarrow> nat series" where
  \<comment> \<open>Modelled from the spec: \<open>PortfolioData.get_portfolio_nav\<close> is in
      \<open>qis/portfolio/portfolio_data.py\<close>, which is not among the sources; the spec has a
      portfolio result expose its net-asset-value series.\<close>
  "get_portfolio_nav p = nav p"

subsection \<open>MultiPortfolioData\<close>

text \<open>
  The dataclass: the portfolios, the optional benchmark table, and \<open>navs\<close>, which
  \<open>set_navs\<close> assigns (\<open>None\<close> before \<open>__post_init__\<close> has run).
\<close>

record multi_portfolio_data =
  portfolio_datas :: "portfolio_data list"
  benchmark_prices :: "nat frame option"
  navs :: "nat frame option"

text \<open>Lines 51-61.\<close>

definition set_navs :: "freq option \<Rightarrow> multi_portfolio_data \<Rightarrow> error + multi_portfolio_data" where
  "set_navs fr s =
     (case pd_concat union_sorted (map (\<lambda>p. to_frame (get_portfolio_nav p)) (portfolio_datas s)) of
        Inl e \<Rightarrow> Inl e
      | Inr navs0 \<Rightarrow>
          (case (case fr of None \<Rightarrow> Inr navs0 | Some f \<Rightarrow> asfreq navs0 f) of
             Inl e \<Rightarrow> Inl e
           | Inr navs1 \<Rightarrow>
               (case benchmark_prices s of
                  None \<Rightarrow> Inr (s\<lparr>navs := Some navs1\<rparr>)
                | Some bp \<Rightarrow>
                    (case reindex_ffill bp (f_index navs1) of
                       Inl e \<Rightarrow> Inl e
                     | Inr bp' \<Rightarrow> Inr (s\<lparr>navs := Some navs1, benchmark_prices := Some bp'\<rparr>)))))"

text \<open>Lines 48-49 and 63-65.\<close>

definition post_init :: "multi_portfolio_data \<Rightarrow> error + multi_portfolio_data" where
  "post_init s = set_navs None s"

definition set_benchmark_prices ::
  "nat frame \<Rightarrow> multi_portfolio_data \<Rightarrow> error + multi_portfolio_data" where
  "set_benchmark_prices bp s = set_navs None (s\<lparr>benchmark_prices := Some bp\<rparr>)"

text \<open>
  Lines 84-91. Subscripting \<open>benchmark_prices\<close> raises \<open>TypeError\<close> when it is
  \<open>None\<close>.
\<close>

definition get_benchmark_price ::
  "ext \<Rightarrow> multi_portfolio_data \<Rightarrow> string \<Rightarrow> time_period option \<Rightarrow> error + nat frame" where
  "get_benchmark_price X s benchmark tp =
     (case benchmark_prices s of
        None \<Rightarrow> Inl TypeError
      | Some bp \<Rightarrow>
          (case getitem_column bp benchmark of
             Inl e \<Rightarrow> Inl e
           | Inr price \<Rightarrow> Inr (case tp of None \<Rightarrow> price | Some t \<Rightarrow> locate X t price)))"

text \<open>
  Lines 93-103. \<open>self.benchmark_prices.columns\<close> raises \<open>AttributeError\<close> when the
  table is \<open>None\<close>, and \<open>columns[0]\<close> raises when there is no column.
\<close>

definition get_ac_navs ::
  "ext \<Rightarrow> multi_portfolio_data \<Rightarrow> int \<Rightarrow> string option \<Rightarrow> time_period option \<Rightarrow>
   error + nat frame" where
  "get_ac_navs X s portfolio_idx benchmark tp =
     (case py_getitem (portfolio_datas s) portfolio_idx of
        Inl e \<Rightarrow> Inl e
      | Inr p \<Rightarrow>
          let prices = get_ac_navs_of p tp
          in (case benchmark of
                None \<Rightarrow> Inr prices
              | Some b \<Rightarrow>
                  (case benchmark_prices s of
                     None \<Rightarrow> Inl AttributeError
                   | Some bp \<Rightarrow>
                       (case py_getitem (f_columns bp) 0 of
                          Inl e \<Rightarrow> Inl e
                        | Inr c0 \<Rightarrow>
                            (case get_benchmark_price X s c0 tp of
                               Inl e \<Rightarrow> Inl e
                             | Inr benchmark_price \<Rightarrow>
                                 pd_concat union_sorted [prices, benchmark_price])))))"

text \<open>
  Lines 108-120: the regime shadows need the benchmark column; what they draw is the
  backend's.
\<close>

definition add_regime_shadows :: "multi_portfolio_data \<Rightarrow> string \<Rightarrow> error + unit" where
  "add_regime_shadows s regime_benchmark =
     (case benchmark_prices s of
        None \<Rightarrow> Inl TypeError
      | Some bp \<Rightarrow>
          (case getitem_column bp regime_benchmark of
             Inl e \<Rightarrow> Inl e
           | Inr pivot_prices \<Rightarrow> Inr ()))"

text \<open>
  Lines 297-301: the two instrument tables aligned on the union of their labels, the
  missing entries filled with zero, and subtracted.
\<close>

definition pnl_diff :: "nat frame \<Rightarrow> nat frame \<Rightarrow> nat frame" where
  "pnl_diff pnl_inst1 pnl_inst2 =
     (case align_outer pnl_inst1 pnl_inst2 of
        (df1, df2) \<Rightarrow> subtract_aligned (fillna 0 df1) (fillna 0 df2))"

text \<open>
  \<open>plot_instrument_pnl_diff\<close>, lines 287-320. The result is the table handed to
  \<open>plot_time_series\<close>.
\<close>

definition plot_instrument_pnl_diff ::
  "ext \<Rightarrow> multi_portfolio_data \<Rightarrow> int \<Rightarrow> int \<Rightarrow> bool \<Rightarrow> string option \<Rightarrow>
   time_period option \<Rightarrow> error + nat frame" where
  "plot_instrument_pnl_diff X s portfolio_idx1 portfolio_idx2 is_grouped benchmark tp =
     (case py_getitem (portfolio_datas s) portfolio_idx1 of
        Inl e \<Rightarrow> Inl e
      | Inr p1 \<Rightarrow>
          (case py_getitem (portfolio_datas s) portfolio_idx2 of
             Inl e \<Rightarrow> Inl e
           | Inr p2 \<Rightarrow>
               let diff0 = pnl_diff (instrument_pnl p1) (instrument_pnl p2);
                   diff1 = (if is_grouped
                            then agg_df_by_groups_ax1 X diff0 (group_data p1)
                                   (s_name (nav p1) @ ''-'' @ s_name (nav p2)) (group_order p1)
                            else diff0);
                   diff2 = (case tp of None \<Rightarrow> diff1 | Some t \<Rightarrow> locate X t diff1);
                   diff3 = cumsum diff2
               in (case benchmark of
                     None \<Rightarrow> Inr diff3
                   | Some b \<Rightarrow>
                       (case add_regime_shadows s b of
                          Inl e \<Rightarrow> Inl e
                        | Inr u \<Rightarrow> Inr diff3))))"

text \<open>\<open>plot_exposures_diff\<close>, lines 322-341.\<close>

definition plot_exposures_diff ::
  "multi_portfolio_data \<Rightarrow> int \<Rightarrow> int \<Rightarrow> string option \<Rightarrow> time_period option \<Rightarrow>
   error + nat frame" where
  "plot_exposures_diff s portfolio_idx1 portfolio_idx2 benchmark tp =
     (case py_getitem (portfolio_datas s) portfolio_idx1 of
        Inl e \<Rightarrow> Inl e
      | Inr p1 \<Rightarrow>
          (case py_getitem (portfolio_datas s) portfolio_idx2 of
             Inl e \<Rightarrow> Inl e
           | Inr p2 \<Rightarrow>
               let diff = subtract (get_exposures_grouped p1 tp) (get_exposures_grouped p2 tp)
               in (case benchmark of
                     None \<Rightarrow> Inr diff
                   | Some b \<Rightarrow>
                       (case add_regime_shadows s b of
                          Inl e \<Rightarrow> Inl e
                        | Inr u \<Rightarrow> Inr diff))))"

text \<open>
  \<open>plot_performance_attribution\<close>, lines 475-486: the per-portfolio series are
  concatenated, the rows sorted by the first column, largest first and \<open>NaN\<close> last
  (\<open>sort_values\<close> raises when the label of the first column is not unique), every
  \<open>0.0\<close> replaced by \<open>NaN\<close>, and \<open>dropna()\<close> keeps the rows without a \<open>NaN\<close>.
\<close>

fun performance_datas ::
  "portfolio_data list \<Rightarrow> int list \<Rightarrow> attribution_metric \<Rightarrow> time_period option \<Rightarrow>
   error + string frame list" where
  "performance_datas ps [] m tp = Inr []"
| "performance_datas ps (portfolio_id # ids) m tp =
     (case py_getitem ps portfolio_id of
        Inl e \<Rightarrow> Inl e
      | Inr p \<Rightarrow>
          (case performance_datas ps ids m tp of
             Inl e \<Rightarrow> Inl e
           | Inr datas \<Rightarrow> Inr (to_frame (get_performance_data p m tp) # datas)))"

definition sort_values_desc :: "'i frame \<Rightarrow> 'i frame" where
  "sort_values_desc F =
     (let lines = zip (f_index F) (f_rows F);
          present = filter (\<lambda>(l, row). hd row \<noteq> None) lines;
          missing = filter (\<lambda>(l, row). hd row = None) lines;
          sorted_lines = sort_key (\<lambda>(l, row). - the (hd row)) present @ missing
      in F\<lparr>f_index := map fst sorted_lines, f_rows := map snd sorted_lines\<rparr>)"

definition replace_zero_nan :: "'i frame \<Rightarrow> 'i frame" where
  "replace_zero_nan F =
     F\<lparr>f_rows := map (map (\<lambda>v. if v = Some 0 then None else v)) (f_rows F)\<rparr>"

definition dropna :: "'i frame \<Rightarrow> 'i frame" where
  "dropna F =
     (let kept = filter (\<lambda>(l, row). None \<notin> set row) (zip (f_index F) (f_rows F))
      in F\<lparr>f_index := map fst kept, f_rows := map snd kept\<rparr>)"

definition attribution_data ::
  "multi_portfolio_data \<Rightarrow> int list \<Rightarrow> attribution_metric \<Rightarrow> time_period option \<Rightarrow>
   error + string frame" where
  "attribution_data s portfolio_ids m tp =
     (case performance_datas (portfolio_datas s) portfolio_ids m tp of
        Inl e \<Rightarrow> Inl e
      | Inr datas \<Rightarrow>
          (case pd_concat union_appearance datas of
             Inl e \<Rightarrow> Inl e
           | Inr data \<Rightarrow>
               if count_list (f_columns data) (hd (f_columns data)) > 1 then Inl ValueError
               else Inr (sort_values_desc data)))"

definition attribution_table ::
  "multi_portfolio_data \<Rightarrow> int list \<Rightarrow> attribution_metric \<Rightarrow> time_period option \<Rightarrow>
   error + string frame" where
  "attribution_table s portfolio_ids m tp =
     (case attribution_data s portfolio_ids m tp of
        Inl e \<Rightarrow> Inl e
      | Inr data \<Rightarrow> Inr (dropna (replace_zero_nan data)))"

text \<open>
  Lines 487-492: the table goes to \<open>plot_bars\<close>, grouped, with \<open>skip_y_axis=True\<close> and
  \<open>ncol\<close> among the keyword arguments that \<open>plot_bars\<close> takes in \<open>**kwargs\<close>; the
  names in \<open>kwargs\<close> of the arguments are those the caller passed beyond them.
\<close>

definition frame_to_table :: "string frame \<Rightarrow> table" where
  "frame_to_table F = \<lparr>kind = DataFrame, index = map Str (f_index F), columns = f_columns F,
                       vals = f_rows F\<rparr>"

definition plot_performance_attribution ::
  "(nat \<Rightarrow> string) \<Rightarrow> (real \<Rightarrow> string) \<Rightarrow> (table \<Rightarrow> patch list) \<Rightarrow> bars_args \<Rightarrow>
   multi_portfolio_data \<Rightarrow> int list \<Rightarrow> attribution_metric \<Rightarrow> time_period option \<Rightarrow>
   error + bars_result" where
  "plot_performance_attribution strftime fmt barplot a s portfolio_ids m tp =
     (case attribution_table s portfolio_ids m tp of
        Inl e \<Rightarrow> Inl e
      | Inr data \<Rightarrow>
          plot_bars strftime fmt barplot
            (a\<lparr>stacked := False, kwargs := ''skip_y_axis'' # ''ncol'' # kwargs a\<rparr>)
            (frame_to_table data))"

section \<open>Example inputs\<close>

text \<open>
  Concrete formatters, backends, arguments and tables, on which the theorems below are
  instantiated.
\<close>

definition ex_strftime :: "nat \<Rightarrow> string" where
  "ex_strftime t = (if t = 0 then ''01-Jan-70'' else ''02-Jan-70'')"

definition ex_format :: "real \<Rightarrow> string" where
  "ex_format v = (if v = 3 then ''300.0%'' else if v = 5 then ''500.0%''
                  else if v = 7 then ''700.0%'' else ''?'')"

definition ex_barplot :: "table \<Rightarrow> patch list" where
  "ex_barplot df =
     [\<lparr>p_x = -0.4, p_y = 0, p_width = 0.8, p_height = 1\<rparr>,
      \<lparr>p_x = 0.6, p_y = 0, p_width = 0.8, p_height = 2\<rparr>]"

definition ex_bars_args :: bars_args where
  "ex_bars_args = \<lparr>stacked = False, min_max_for_bars_values = None, is_add_bar_values = False,
     is_add_top_bar_values = False, totals = Some [3, 5], is_top_totals = False,
     colors_given = False, ax_given = True, ylim = (0, 2), kwargs = []\<rparr>"

definition ex_dated_table :: table where
  "ex_dated_table = \<lparr>kind = DataFrame, index = [Timestamp 0, Timestamp 1],
                      columns = [''data1''], vals = [[Some 1], [Some 2]]\<rparr>"

definition ex_bars_result :: bars_result where
  "ex_bars_result =
     \<lparr>df_after = ex_dated_table\<lparr>index := [Str ''01-Jan-70'', Str ''02-Jan-70'']\<rparr>,
      fig_created = False, n_colors = Some 2, bar_value_texts = [],
      total_markers = [TotalLine (-0.4) 0.4 3 ''300.0%'', TotalLine 0.6 1.4 5 ''500.0%''],
      ylim_after = (0, 2)\<rparr>"

definition ex_stacked_barplot :: "table \<Rightarrow> patch list" where
  "ex_stacked_barplot df =
     [\<lparr>p_x = 0, p_y = 0, p_width = 1 / 2, p_height = 1\<rparr>,
      \<lparr>p_x = 0, p_y = 1, p_width = 1 / 2, p_height = 2\<rparr>,
      \<lparr>p_x = 1, p_y = 0, p_width = 1 / 2, p_height = 3\<rparr>,
      \<lparr>p_x = 1, p_y = 3, p_width = 1 / 2, p_height = 4\<rparr>]"

definition ex_stacked_args :: bars_args where
  "ex_stacked_args = ex_bars_args\<lparr>stacked := True, totals := Some [3, 7]\<rparr>"

definition ex_stacked_result :: bars_result where
  "ex_stacked_result =
     \<lparr>df_after = ex_dated_table\<lparr>index := [Str ''01-Jan-70'', Str ''02-Jan-70'']\<rparr>,
      fig_created = False, n_colors = Some 1, bar_value_texts = [],
      total_markers = [TotalLine 0 (1 / 2) 3 ''300.0%'', TotalLine 1 (3 / 2) 7 ''700.0%''],
      ylim_after = (0, 2)\<rparr>"

definition ex_env :: vbars_env where
  "ex_env = \<lparr>var_format = (\<lambda>v. if v = 1 then ''100.0%'' else if v = 1/2 then ''50.0%''
                              else if v = -1/4 then ''-25.0%'' else ''?''),
             var_format_nan = ''nan%'',
             perc_format = (\<lambda>c t. ''?''),
             label_str = (\<lambda>l. case l of Str s \<Rightarrow> s | Timestamp t \<Rightarrow> ''1970-01-01''),
             compute_heatmap_colors = map (\<lambda>v. ''grey''),
             get_n_mlt_colors = (\<lambda>n. replicate n ''grey'')\<rparr>"

definition ex_vbars_args :: vbars_args where
  "ex_vbars_args = \<lparr>v_is_add_bar_values = True, add_bar_perc_values = False, v_totals = None,
     v_colors = Some [''red'', ''blue''], add_bar_value_at_mid = True, add_total_bar = True,
     add_total_to_index = False, add_total_to_left = False, is_category_names_colors = True\<rparr>"

definition ex_weights :: table where
  "ex_weights = \<lparr>kind = DataFrame, index = [Str ''f1'', Str ''f2''],
                  columns = [''as1'', ''as2''], vals = [[Some (1/2), Some (-1/4)], [Some 0, Some 1]]\<rparr>"

definition ex_vbars_result :: vbars_result where
  "ex_vbars_result =
     \<lparr>v_df_after = ex_weights,
      v_labels = [Str ''f1'', Str ''f2''],
      neg_bars =
        [\<lparr>b_label = ''as1'', b_widths = [0, 0], b_lefts = [- (1 / 4), 0], b_color = [''red'']\<rparr>,
         \<lparr>b_label = ''as2'', b_widths = [1 / 4, 0], b_lefts = [- (1 / 4), 0],
            b_color = [''blue'']\<rparr>],
      neg_texts = [[], [\<lparr>t_x = Some (- (1 / 8)), t_y = 0, t_label = ''-25.0%''\<rparr>]],
      pos_bars =
        [\<lparr>b_label = ''as1'', b_widths = [1 / 2, 0], b_lefts = [0, 0], b_color = [''red'']\<rparr>,
         \<lparr>b_label = ''as2'', b_widths = [0, 1], b_lefts = [1 / 2, 0], b_color = [''blue'']\<rparr>],
      pos_texts =
        [[\<lparr>t_x = Some (1 / 4), t_y = 0, t_label = ''50.0%''\<rparr>],
         [\<lparr>t_x = Some (1 / 2), t_y = 1, t_label = ''100.0%''\<rparr>]],
      total_ticks = [(Some (1 / 4), 0), (Some 1, 1)], total_texts = []\<rparr>"

definition ex_nan_weights :: table where
  "ex_nan_weights = \<lparr>kind = DataFrame, index = [Str ''f1''],
                      columns = [''as1'', ''as2''], vals = [[None, Some (1/2)]]\<rparr>"

definition ex_nan_result :: vbars_result where
  "ex_nan_result =
     \<lparr>v_df_after = ex_nan_weights,
      v_labels = [Str ''f1''],
      neg_bars =
        [\<lparr>b_label = ''as1'', b_widths = [0], b_lefts = [0], b_color = [''red'']\<rparr>,
         \<lparr>b_label = ''as2'', b_widths = [0], b_lefts = [0], b_color = [''blue'']\<rparr>],
      neg_texts = [[], []],
      pos_bars =
        [\<lparr>b_label = ''as1'', b_widths = [0], b_lefts = [0], b_color = [''red'']\<rparr>,
         \<lparr>b_label = ''as2'', b_widths = [1 / 2], b_lefts = [0], b_color = [''blue'']\<rparr>],
      pos_texts = [[], [\<lparr>t_x = Some (1 / 4), t_y = 0, t_label = ''50.0%''\<rparr>]],
      total_ticks = [(None, 0)], total_texts = []\<rparr>"



definition ex_portfolio_a :: portfolio_data where
  "ex_portfolio_a =
     \<lparr>nav = \<lparr>s_name = ''A'', s_index = [1, 2, 4], s_values = [Some 100, Some 101, Some 103]\<rparr>,
      instrument_pnl = \<lparr>f_index = [1, 2], f_columns = [''x'', ''y''],
                         f_rows = [[Some 1, Some 2], [Some 3, None]]\<rparr>,
      group_data = [(''x'', ''g1''), (''y'', ''g2'')],
      group_order = [''g1'', ''g2''],
      get_exposures_grouped = (\<lambda>tp. \<lparr>f_index = [1, 2], f_columns = [''g1''],
                                          f_rows = [[Some 1], [Some (1 / 2)]]\<rparr>),
      get_performance_data = (\<lambda>m tp. \<lparr>s_name = ''A'', s_index = [''x'', ''y''],
                                           s_values = [Some 1, Some 2]\<rparr>),
      get_ac_navs_of = (\<lambda>tp. \<lparr>f_index = [1, 2], f_columns = [''A'', ''g1''],
                                   f_rows = [[Some 100, Some 100], [Some 101, Some 102]]\<rparr>)\<rparr>"

definition ex_portfolio_b :: portfolio_data where
  "ex_portfolio_b =
     \<lparr>nav = \<lparr>s_name = ''B'', s_index = [2, 3], s_values = [Some 50, Some 51]\<rparr>,
      instrument_pnl = \<lparr>f_index = [2, 3], f_columns = [''y'', ''z''],
                         f_rows = [[Some 5, Some 7], [Some 1, Some 1]]\<rparr>,
      group_data = [(''y'', ''g2''), (''z'', ''g2'')],
      group_order = [''g2''],
      get_exposures_grouped = (\<lambda>tp. \<lparr>f_index = [2], f_columns = [''g1''],
                                          f_rows = [[Some (1 / 4)]]\<rparr>),
      get_performance_data = (\<lambda>m tp. \<lparr>s_name = ''B'', s_index = [''x'', ''y''],
                                           s_values = [Some 0, Some 3]\<rparr>),
      get_ac_navs_of = (\<lambda>tp. \<lparr>f_index = [2, 3], f_columns = [''B'', ''g2''],
                                   f_rows = [[Some 50, Some 50], [Some 51, Some 52]]\<rparr>)\<rparr>"

definition ex_benchmarks :: "nat frame" where
  "ex_benchmarks = \<lparr>f_index = [0, 2, 5], f_columns = [''SPY'', ''TLT''],
                     f_rows = [[Some 10, Some 20], [Some 11, Some 21], [Some 12, Some 22]]\<rparr>"

definition ex_multi :: multi_portfolio_data where
  "ex_multi = \<lparr>portfolio_datas = [ex_portfolio_a, ex_portfolio_b],
                benchmark_prices = None, navs = None\<rparr>"

definition ex_ext :: ext where
  "ex_ext = \<lparr>locate = (\<lambda>tp F. F), agg_df_by_groups_ax1 = (\<lambda>F groups total order. F)\<rparr>"

definition ex_exposures_diff :: "nat frame" where
  "ex_exposures_diff = \<lparr>f_index = [1, 2], f_columns = [''g1''],
                         f_rows = [[None], [Some (- (1 / 4))]]\<rparr>"

definition ex_multi_bench :: multi_portfolio_data where
  "ex_multi_bench = ex_multi\<lparr>benchmark_prices := Some ex_benchmarks\<rparr>"

definition ex_ac_navs :: "nat frame" where
  "ex_ac_navs = \<lparr>f_index = [0, 1, 2, 5], f_columns = [''A'', ''g1'', ''SPY''],
        f_rows = [[None, None, Some 10], [Some 100, Some 100, None],
                  [Some 101, Some 102, Some 11], [None, None, Some 12]]\<rparr>"

definition ex_attribution_data :: "string frame" where
  "ex_attribution_data = \<lparr>f_index = [''y'', ''x''], f_columns = [''A'', ''B''],
                           f_rows = [[Some 2, Some 3], [Some 1, Some 0]]\<rparr>"

definition ex_attribution_table :: "string frame" where
  "ex_attribution_table = \<lparr>f_index = [''y''], f_columns = [''A'', ''B''],
                            f_rows = [[Some 2, Some 3]]\<rparr>"

definition ex_navs :: "nat frame" where
  "ex_navs = \<lparr>f_index = [1, 2, 3, 4], f_columns = [''A'', ''B''],
               f_rows = [[Some 100, None], [Some 101, Some 50], [None, Some 51],
                         [Some 103, None]]\<rparr>"

definition ex_benchmarks_on_navs :: "nat frame" where
  "ex_benchmarks_on_navs = \<lparr>f_index = [1, 2, 3, 4], f_columns = [''SPY'', ''TLT''],
               f_rows = [[Some 10, Some 20], [Some 11, Some 21], [Some 11, Some 21],
                         [Some 11, Some 21]]\<rparr>"

section \<open>Properties of the bar renderers\<close>

subsection \<open>plot_bars and the caller's table\<close>

lemma format_dates_Inr:
  "format_dates strftime ls = Inr ls' \<Longrightarrow>
     \<exists>ts. ls = map Timestamp ts \<and> ls' = map (\<lambda>t. Str (strftime t)) ts"
proof (induction ls arbitrary: ls')
  case Nil
  then show ?case by simp
next
  case (Cons l ls)
  show ?case
  proof (cases l)
    case (Timestamp t)
    with Cons.prems obtain ls1 where a: "format_dates strftime ls = Inr ls1" and b: "ls' = Str (strftime t) # ls1"
      by (auto split: sum.splits)
    from Cons.IH[OF a] obtain ts where "ls = map Timestamp ts" "ls1 = map (\<lambda>t. Str (strftime t)) ts" by blast
    with Timestamp b have "l # ls = map Timestamp (t # ts) \<and> ls' = map (\<lambda>t. Str (strftime t)) (t # ts)" by simp
    then show ?thesis by (rule exI)
  next
    case (Str s)
    with Cons.prems show ?thesis by simp
  qed
qed

lemma reformat_index_Inr:
  assumes "reformat_index strftime df = Inr df1"
  shows "vals df1 = vals df \<and> columns df1 = columns df \<and> kind df1 = kind df \<and>
         (case hd (index df) of
            Str s \<Rightarrow> index df1 = index df
          | Timestamp t \<Rightarrow> \<exists>ts. index df = map Timestamp ts \<and>
                                 index df1 = map (\<lambda>t. Str (strftime t)) ts)"
  using assms format_dates_Inr[of strftime "index df"]
  by (auto simp: reformat_index_def split: list.splits label.splits sum.splits)

text \<open>
  Claim C1, as the code has it. \<open>plot_bars\<close> never changes the values, the column
  names or the kind of the caller's table. It leaves the index as it is when the first
  label is not a timestamp; when it is, every label is a timestamp and the index of the
  caller's own table is replaced by the formatted dates (no copy is made).
\<close>

theorem plot_bars_frame:
  assumes "plot_bars strftime fmt barplot a df = Inr r"
  shows "vals (df_after r) = vals df \<and> columns (df_after r) = columns df \<and>
         kind (df_after r) = kind df \<and>
         (case hd (index df) of
            Str s \<Rightarrow> index (df_after r) = index df
          | Timestamp t \<Rightarrow> \<exists>ts. index df = map Timestamp ts \<and>
                                 index (df_after r) = map (\<lambda>t. Str (strftime t)) ts)"
proof -
  from assms obtain df1 where a: "reformat_index strftime df = Inr df1" and b: "df_after r = df1"
    by (auto simp: plot_bars_def Let_def split: sum.splits if_splits)
  from reformat_index_Inr[OF a] show ?thesis unfolding b .
qed

lemma ex_plot_bars:
  "plot_bars ex_strftime ex_format ex_barplot ex_bars_args ex_dated_table = Inr ex_bars_result"
  by (simp add: plot_bars_def reformat_index_def ex_dated_table_def ex_strftime_def
      ex_barplot_def ex_bars_args_def ex_bars_result_def palette_size_def draw_totals_def
      total_marker_def bar_value_text_def ex_format_def)

text \<open>
  Claim C1 as stated fails: on a table indexed by the timestamps 0 and 1 the call
  returns, and afterwards the caller's table is indexed by two strings.
\<close>

theorem plot_bars_mutates_index:
  "plot_bars ex_strftime ex_format ex_barplot ex_bars_args ex_dated_table = Inr ex_bars_result
   \<and> index (df_after ex_bars_result) = [Str ''01-Jan-70'', Str ''02-Jan-70'']
   \<and> index ex_dated_table = [Timestamp 0, Timestamp 1]
   \<and> index (df_after ex_bars_result) \<noteq> index ex_dated_table"
  using ex_plot_bars by (simp add: ex_bars_result_def ex_dated_table_def)

text \<open>
  Claim C1, amended, on the same table.
\<close>

theorem plot_bars_frame_witness:
  "vals (df_after ex_bars_result) = vals ex_dated_table \<and>
   columns (df_after ex_bars_result) = columns ex_dated_table \<and>
   kind (df_after ex_bars_result) = kind ex_dated_table \<and>
   index ex_dated_table = map Timestamp [0, 1] \<and>
   index (df_after ex_bars_result) = map (\<lambda>t. Str (ex_strftime t)) [0, 1]"
  using plot_bars_frame[OF ex_plot_bars]
  by (simp add: ex_bars_result_def ex_dated_table_def ex_strftime_def)

subsection \<open>plot_bars and the totals\<close>

lemma first_positions_Cons:
  "rev (remdups (rev (x # xs))) = x # rev (remdups (rev (filter (\<lambda>y. y \<noteq> x) xs)))"
proof -
  have "remdups (zs @ [x]) = remdups (filter (\<lambda>y. y \<noteq> x) zs) @ [x]" for zs
    by (induction zs) auto
  from this[of "rev xs"] show ?thesis by (simp add: rev_filter)
qed

lemma first_bar_at_Cons:
  "p_x p \<noteq> y \<Longrightarrow> first_bar_at (p # ps) y = first_bar_at ps y"
  "first_bar_at (p # ps) (p_x p) = p"
  by (simp_all add: first_bar_at_def)

lemma store_locations_positions:
  "store_locations ps x_locs x_mins x_maxs =
     (x_locs @ rev (remdups (rev (filter (\<lambda>x. x \<notin> set x_locs) (map p_x ps)))),
      x_mins @ rev (remdups (rev (filter (\<lambda>x. x \<notin> set x_locs) (map p_x ps)))),
      x_maxs @ map (\<lambda>x. x + p_width (first_bar_at ps x))
                   (rev (remdups (rev (filter (\<lambda>x. x \<notin> set x_locs) (map p_x ps))))))"
proof (induction ps arbitrary: x_locs x_mins x_maxs)
  case Nil
  then show ?case by simp
next
  case (Cons p ps)
  define new where "new = (\<lambda>seen. rev (remdups (rev (filter (\<lambda>x. x \<notin> set seen) (map p_x ps)))))"
  have other: "map (\<lambda>x. x + p_width (first_bar_at (p # ps) x)) zs =
               map (\<lambda>x. x + p_width (first_bar_at ps x)) zs" if "p_x p \<notin> set zs" for zs
  proof (rule map_cong)
    fix x assume "x \<in> set zs"
    with that have "p_x p \<noteq> x" by auto
    then show "x + p_width (first_bar_at (p # ps) x) = x + p_width (first_bar_at ps x)"
      by (simp add: first_bar_at_Cons)
  qed simp
  show ?case
  proof (cases "p_x p \<in> set x_locs")
    case True
    then have f: "filter (\<lambda>x. x \<notin> set x_locs) (map p_x (p # ps)) =
                  filter (\<lambda>x. x \<notin> set x_locs) (map p_x ps)" by simp
    have "p_x p \<notin> set (new x_locs)" using True by (auto simp: new_def)
    from other[OF this] show ?thesis
      using True Cons.IH[of x_locs x_mins x_maxs] unfolding f by (simp add: new_def)
  next
    case False
    have n: "rev (remdups (rev (filter (\<lambda>x. x \<notin> set x_locs) (map p_x (p # ps))))) =
             p_x p # new (x_locs @ [p_x p])"
    proof -
      have "filter (\<lambda>y. y \<noteq> p_x p) (filter (\<lambda>x. x \<notin> set x_locs) (map p_x ps)) =
            filter (\<lambda>x. x \<notin> set (x_locs @ [p_x p])) (map p_x ps)"
        by (auto simp: filter_filter intro: filter_cong)
      then show ?thesis
        using False first_positions_Cons[of "p_x p" "filter (\<lambda>x. x \<notin> set x_locs) (map p_x ps)"]
        by (simp add: new_def)
    qed
    have "p_x p \<notin> set (new (x_locs @ [p_x p]))" by (auto simp: new_def)
    from other[OF this] show ?thesis
      using False Cons.IH[of "x_locs @ [p_x p]" "x_mins @ [p_x p]" "x_maxs @ [p_x p + p_width p]"]
      unfolding n by (simp add: new_def first_bar_at_Cons)
  qed
qed

lemma store_locations_category_bars:
  "store_locations ps [] [] [] =
     (map p_x (category_bars ps), map p_x (category_bars ps),
      map (\<lambda>p. p_x p + p_width p) (category_bars ps))"
proof -
  have x: "p_x (first_bar_at ps x) = x" if "x \<in> set (bar_positions ps)" for x
  proof -
    from that have "filter (\<lambda>p. p_x p = x) ps \<noteq> []"
      by (auto simp: bar_positions_def filter_empty_conv)
    then have "hd (filter (\<lambda>p. p_x p = x) ps) \<in> set (filter (\<lambda>p. p_x p = x) ps)"
      by (rule hd_in_set)
    then show ?thesis by (simp add: first_bar_at_def)
  qed
  then have "map p_x (category_bars ps) = bar_positions ps"
    by (simp add: category_bars_def comp_def map_idI)
  moreover have "map (\<lambda>p. p_x p + p_width p) (category_bars ps) =
                 map (\<lambda>x. x + p_width (first_bar_at ps x)) (bar_positions ps)"
    using x by (simp add: category_bars_def comp_def)
  ultimately show ?thesis
    using store_locations_positions[of ps "[]" "[]" "[]"] by (simp add: bar_positions_def)
qed

lemma category_bars_positions:
  "distinct (map p_x (category_bars ps)) \<and> p_x ` set (category_bars ps) = p_x ` set ps"
proof -
  have "map p_x (category_bars ps) = bar_positions ps"
    using store_locations_category_bars[of ps] store_locations_positions[of ps "[]" "[]" "[]"]
    by (simp add: bar_positions_def)
  moreover have "distinct (bar_positions ps)" "set (bar_positions ps) = p_x ` set ps"
    by (simp_all add: bar_positions_def)
  ultimately show ?thesis by (metis set_map)
qed

text \<open>
  Claim C2. The renderer keeps one bar for every position at which the backend drew
  bars, the first drawn there: these are the bars of the categories, whether the series
  of a category share a position (stacked) or stand side by side (grouped). Their
  positions differ and are all the positions drawn. The totals are paired with these
  bars in order: as many markers as there are totals and bars to pair, the marker of
  category \<open>k\<close> showing the \<open>k\<close>-th total (as the height of the line, or as the text at
  the top, formatted by \<open>var_format\<close>) on the span of the \<open>k\<close>-th bar. With one total
  for every category of the table, and a bar position for every category, there is
  exactly one marker for every category. Nothing in it depends on \<open>stacked\<close>.
\<close>

theorem plot_bars_total_markers:
  assumes "plot_bars strftime fmt barplot a df = Inr r"
      and "totals a = Some ts"
  shows "distinct (map p_x (category_bars (barplot (df_after r)))) \<and>
         p_x ` set (category_bars (barplot (df_after r))) = p_x ` set (barplot (df_after r)) \<and>
         length (total_markers r) =
           min (length ts) (length (category_bars (barplot (df_after r)))) \<and>
         (\<forall>k<length (total_markers r).
            total_markers r ! k =
              marker_on fmt (is_top_totals a) (category_bars (barplot (df_after r)) ! k) (ts ! k)) \<and>
         (length ts = length (index (df_after r)) \<and>
          length (index (df_after r)) \<le> length (category_bars (barplot (df_after r)))
            \<longrightarrow> length (total_markers r) = length (index (df_after r)))"
proof -
  define cb where "cb = category_bars (barplot (df_after r))"
  from assms(1) have tm: "total_markers r =
      draw_totals fmt a (store_locations (barplot (df_after r)) [] [] [])"
    by (auto simp: plot_bars_def Let_def split: sum.splits if_splits)
  have tm2: "total_markers r = map (total_marker fmt (is_top_totals a))
        (zip ts (zip (map p_x cb) (zip (map p_x cb) (map (\<lambda>p. p_x p + p_width p) cb))))"
    unfolding tm store_locations_category_bars cb_def using assms(2) by (simp add: draw_totals_def)
  have len: "length (total_markers r) = min (length ts) (length cb)" by (simp add: tm2)
  have nth: "total_markers r ! k = marker_on fmt (is_top_totals a) (cb ! k) (ts ! k)"
    if "k < length (total_markers r)" for k
    using that len by (simp add: tm2 total_marker_def marker_on_def)
  from category_bars_positions[of "barplot (df_after r)"] len nth
  show ?thesis unfolding cb_def by auto
qed

lemma ex_plot_stacked:
  "plot_bars ex_strftime ex_format ex_stacked_barplot ex_stacked_args ex_dated_table
     = Inr ex_stacked_result"
  by code_simp

lemma ex_stacked_category_bars:
  "category_bars (ex_stacked_barplot df) =
     [\<lparr>p_x = 0, p_y = 0, p_width = 1 / 2, p_height = 1\<rparr>,
      \<lparr>p_x = 1, p_y = 0, p_width = 1 / 2, p_height = 3\<rparr>]"
  by (simp add: category_bars_def bar_positions_def first_bar_at_def ex_stacked_barplot_def)

text \<open>
  Claim C2 on two categories of two stacked bars each, at the positions 0, 0, 1, 1, and
  the totals 3 and 7.
\<close>

theorem plot_bars_total_markers_witness:
  "length (total_markers ex_stacked_result) = 2 \<and>
   length (index (df_after ex_stacked_result)) = 2 \<and>
   total_markers ex_stacked_result ! 0 = TotalLine 0 (1 / 2) 3 (ex_format 3) \<and>
   total_markers ex_stacked_result ! 1 = TotalLine 1 (3 / 2) 7 (ex_format 7)"
proof -
  have a: "totals ex_stacked_args = Some [3, 7]"
    by (simp add: ex_stacked_args_def ex_bars_args_def)
  have t: "is_top_totals ex_stacked_args = False"
    by (simp add: ex_stacked_args_def ex_bars_args_def)
  note th = plot_bars_total_markers[OF ex_plot_stacked a]
  from th have l: "length (total_markers ex_stacked_result) = 2"
    by (simp add: ex_stacked_category_bars)
  from th have n: "\<forall>k<length (total_markers ex_stacked_result).
            total_markers ex_stacked_result ! k =
              marker_on ex_format (is_top_totals ex_stacked_args)
                (category_bars (ex_stacked_barplot (df_after ex_stacked_result)) ! k) ([3, 7] ! k)"
    by blast
  from n[rule_format, of 0] l
  have "total_markers ex_stacked_result ! 0 = TotalLine 0 (1 / 2) 3 (ex_format 3)"
    by (simp add: ex_stacked_category_bars marker_on_def t)
  moreover from n[rule_format, of 1] l
  have "total_markers ex_stacked_result ! 1 = TotalLine 1 (3 / 2) 7 (ex_format 7)"
    by (simp add: ex_stacked_category_bars marker_on_def t)
  moreover have "length (index (df_after ex_stacked_result)) = 2"
    by (simp add: ex_stacked_result_def)
  ultimately show ?thesis using l by simp
qed

subsection \<open>plot_vbars\<close>

lemma segment_texts_nonzero:
  assumes "t \<in> set (segment_texts E a bvm tots xcenters widths)"
  shows "t_y t < length widths \<and> \<not> isclose (widths ! t_y t) 0"
proof -
  from assms obtain y x c where m: "(y, (x, c)) \<in> set (List.enumerate 0 (zip xcenters widths))"
    and nz: "\<not> isclose c 0" and ty: "t_y t = y"
    by (auto simp: segment_texts_def split: if_splits)
  from m have "y < length (zip xcenters widths)" and "(x, c) = zip xcenters widths ! y"
    by (auto simp: in_set_enumerate_eq)
  then have "y < length widths" and "c = widths ! y" by auto
  with nz ty show ?thesis by simp
qed

lemma negative_pass_shape:
  assumes "negative_pass E a D colors bvm tots init cs ls0 = Inr (bars, txts, ls')"
      and "length (case ls0 of None \<Rightarrow> init | Some ls \<Rightarrow> ls) = length D"
  shows "length bars = length cs \<and> length txts = length cs \<and>
         (case ls' of None \<Rightarrow> cs = [] \<and> ls0 = None | Some l \<Rightarrow> length l = length D) \<and>
         (\<forall>m<length cs.
            (\<forall>t\<in>set (txts ! m). t_y t < length D \<and>
                \<not> isclose (where_neg (D ! t_y t ! fst (cs ! m))) 0) \<and>
            length (b_lefts (bars ! m)) = length D \<and>
            length (b_widths (bars ! m)) = length D \<and>
            (\<forall>k<length D.
               b_widths (bars ! m) ! k = \<bar>where_neg (D ! k ! fst (cs ! m))\<bar> \<and>
               b_lefts (bars ! m) ! k =
                 (case ls0 of None \<Rightarrow> init | Some ls \<Rightarrow> ls) ! k +
                 (\<Sum>c\<leftarrow>take m cs. \<bar>where_neg (D ! k ! fst c)\<bar>)))"
  using assms
proof (induction cs arbitrary: ls0 bars txts)
  case Nil
  then show ?case by (auto split: option.splits)
next
  case (Cons c cs)
  obtain i colname where c: "c = (i, colname)" by (cases c)
  define S0 where "S0 = (case ls0 of None \<Rightarrow> init | Some ls \<Rightarrow> ls)"
  define widths where "widths = map (\<lambda>row. where_neg (row ! i)) D"
  define S1 where "S1 = map2 (+) S0 (map abs widths)"
  have lS0: "length S0 = length D" using Cons.prems(2) by (simp add: S0_def)
  have lS1: "length S1 = length D" by (simp add: S1_def lS0 widths_def)
  from Cons.prems(1) obtain cc bars1 txts1 where
        cc: "col_colors a colors i = Inr cc"
    and rec: "negative_pass E a D colors bvm tots init cs (Some S1) = Inr (bars1, txts1, ls')"
    and bars: "bars = \<lparr>b_label = colname, b_widths = map abs widths, b_lefts = S0, b_color = cc\<rparr> # bars1"
    and txts: "txts = segment_texts E a bvm tots (map2 (+) S0 (map (\<lambda>w. \<bar>w\<bar> / 2) widths)) widths # txts1"
    by (auto simp: c Let_def S0_def widths_def S1_def split: sum.splits prod.splits)
  have ih: "length bars1 = length cs \<and> length txts1 = length cs \<and>
         (case ls' of None \<Rightarrow> cs = [] \<and> Some S1 = None | Some l \<Rightarrow> length l = length D) \<and>
         (\<forall>m<length cs.
            (\<forall>t\<in>set (txts1 ! m). t_y t < length D \<and>
                \<not> isclose (where_neg (D ! t_y t ! fst (cs ! m))) 0) \<and>
            length (b_lefts (bars1 ! m)) = length D \<and>
            length (b_widths (bars1 ! m)) = length D \<and>
            (\<forall>k<length D.
               b_widths (bars1 ! m) ! k = \<bar>where_neg (D ! k ! fst (cs ! m))\<bar> \<and>
               b_lefts (bars1 ! m) ! k = S1 ! k + (\<Sum>c\<leftarrow>take m cs. \<bar>where_neg (D ! k ! fst c)\<bar>)))"
    using Cons.IH[OF rec] lS1 by simp
  have S1k: "S1 ! k = S0 ! k + \<bar>where_neg (D ! k ! i)\<bar>" if "k < length D" for k
    using that lS0 by (simp add: S1_def widths_def)
  have first: "(\<forall>t\<in>set (txts ! 0). t_y t < length D \<and>
                \<not> isclose (where_neg (D ! t_y t ! fst ((c # cs) ! 0))) 0)"
  proof
    fix t assume "t \<in> set (txts ! 0)"
    then have "t \<in> set (segment_texts E a bvm tots (map2 (+) S0 (map (\<lambda>w. \<bar>w\<bar> / 2) widths)) widths)"
      by (simp add: txts)
    from segment_texts_nonzero[OF this]
    show "t_y t < length D \<and> \<not> isclose (where_neg (D ! t_y t ! fst ((c # cs) ! 0))) 0"
      by (auto simp: widths_def c)
  qed
  have main: "(\<forall>t\<in>set (txts ! m). t_y t < length D \<and>
                \<not> isclose (where_neg (D ! t_y t ! fst ((c # cs) ! m))) 0) \<and>
            length (b_lefts (bars ! m)) = length D \<and>
            length (b_widths (bars ! m)) = length D \<and>
            (\<forall>k<length D.
               b_widths (bars ! m) ! k = \<bar>where_neg (D ! k ! fst ((c # cs) ! m))\<bar> \<and>
               b_lefts (bars ! m) ! k = S0 ! k + (\<Sum>c\<leftarrow>take m (c # cs). \<bar>where_neg (D ! k ! fst c)\<bar>))"
    if m: "m < length (c # cs)" for m
  proof (cases m)
    case 0
    with first show ?thesis by (simp add: bars lS0 widths_def c)
  next
    case (Suc m')
    with m have "m' < length cs" by simp
    with ih have *: "(\<forall>t\<in>set (txts1 ! m'). t_y t < length D \<and>
                \<not> isclose (where_neg (D ! t_y t ! fst (cs ! m'))) 0) \<and>
            length (b_lefts (bars1 ! m')) = length D \<and>
            length (b_widths (bars1 ! m')) = length D \<and>
            (\<forall>k<length D.
               b_widths (bars1 ! m') ! k = \<bar>where_neg (D ! k ! fst (cs ! m'))\<bar> \<and>
               b_lefts (bars1 ! m') ! k = S1 ! k + (\<Sum>c\<leftarrow>take m' cs. \<bar>where_neg (D ! k ! fst c)\<bar>))"
      by blast
    then show ?thesis using S1k by (simp add: Suc bars txts c)
  qed
  have "length bars = length (c # cs)" "length txts = length (c # cs)"
    using ih by (simp_all add: bars txts)
  moreover have "(case ls' of None \<Rightarrow> c # cs = [] \<and> ls0 = None | Some l \<Rightarrow> length l = length D)"
    using ih by (auto split: option.splits)
  ultimately show ?case using main unfolding S0_def by blast
qed


lemma positive_pass_shape:
  assumes "positive_pass E a D colors bvm tots cs ls0 = Inr (bars, txts, ls')"
      and "length (case ls0 of None \<Rightarrow> replicate (length D) 0 | Some ls \<Rightarrow> ls) = length D"
  shows "length bars = length cs \<and> length txts = length cs \<and>
         (\<forall>m<length cs.
            (\<forall>t\<in>set (txts ! m). t_y t < length D \<and>
                \<not> isclose (where_pos (D ! t_y t ! fst (cs ! m))) 0) \<and>
            length (b_lefts (bars ! m)) = length D \<and>
            length (b_widths (bars ! m)) = length D \<and>
            (\<forall>k<length D.
               b_widths (bars ! m) ! k = where_pos (D ! k ! fst (cs ! m)) \<and>
               b_lefts (bars ! m) ! k =
                 (case ls0 of None \<Rightarrow> replicate (length D) 0 | Some ls \<Rightarrow> ls) ! k +
                 (\<Sum>c\<leftarrow>take m cs. where_pos (D ! k ! fst c))))"
  using assms
proof (induction cs arbitrary: ls0 bars txts)
  case Nil
  then show ?case by simp
next
  case (Cons c cs)
  obtain i colname where c: "c = (i, colname)" by (cases c)
  define S0 where "S0 = (case ls0 of None \<Rightarrow> replicate (length D) 0 | Some ls \<Rightarrow> ls)"
  define widths where "widths = map (\<lambda>row. where_pos (row ! i)) D"
  define S1 where "S1 = (case ls0 of None \<Rightarrow> widths | Some ls \<Rightarrow> map2 (+) ls widths)"
  have lS0: "length S0 = length D" using Cons.prems(2) by (simp add: S0_def)
  have lS1: "length S1 = length D"
    using lS0 by (auto simp: S1_def S0_def widths_def split: option.splits)
  define xc where "xc = map2 (+) S0 (map (\<lambda>w. w / 2) widths)"
  have unfold: "positive_pass E a D colors bvm tots (c # cs) ls0 =
     (case col_colors a colors i of
        Inl e \<Rightarrow> Inl e
      | Inr cc \<Rightarrow>
          (case positive_pass E a D colors bvm tots cs (Some S1) of
             Inl e \<Rightarrow> Inl e
           | Inr (bars, txts, ls) \<Rightarrow>
               Inr (\<lparr>b_label = colname, b_widths = widths, b_lefts = S0, b_color = cc\<rparr> # bars,
                    segment_texts E a bvm tots xc widths # txts, ls)))"
    unfolding c positive_pass.simps Let_def S0_def S1_def widths_def xc_def ..
  from Cons.prems(1) obtain cc bars1 txts1 where
        cc: "col_colors a colors i = Inr cc"
    and rec: "positive_pass E a D colors bvm tots cs (Some S1) = Inr (bars1, txts1, ls')"
    and bars: "bars = \<lparr>b_label = colname, b_widths = widths, b_lefts = S0, b_color = cc\<rparr> # bars1"
    and txts: "txts = segment_texts E a bvm tots xc widths # txts1"
    unfolding unfold by (auto split: sum.splits prod.splits)
  have ih: "length bars1 = length cs \<and> length txts1 = length cs \<and>
         (\<forall>m<length cs.
            (\<forall>t\<in>set (txts1 ! m). t_y t < length D \<and>
                \<not> isclose (where_pos (D ! t_y t ! fst (cs ! m))) 0) \<and>
            length (b_lefts (bars1 ! m)) = length D \<and>
            length (b_widths (bars1 ! m)) = length D \<and>
            (\<forall>k<length D.
               b_widths (bars1 ! m) ! k = where_pos (D ! k ! fst (cs ! m)) \<and>
               b_lefts (bars1 ! m) ! k = S1 ! k + (\<Sum>c\<leftarrow>take m cs. where_pos (D ! k ! fst c))))"
    using Cons.IH[OF rec] lS1 by simp
  have S1k: "S1 ! k = S0 ! k + where_pos (D ! k ! i)" if "k < length D" for k
    using that lS0 by (auto simp: S1_def S0_def widths_def split: option.splits)
  have first: "(\<forall>t\<in>set (txts ! 0). t_y t < length D \<and>
                \<not> isclose (where_pos (D ! t_y t ! fst ((c # cs) ! 0))) 0)"
  proof
    fix t assume "t \<in> set (txts ! 0)"
    then have "t \<in> set (segment_texts E a bvm tots xc widths)"
      by (simp add: txts)
    from segment_texts_nonzero[OF this]
    show "t_y t < length D \<and> \<not> isclose (where_pos (D ! t_y t ! fst ((c # cs) ! 0))) 0"
      by (auto simp: widths_def c)
  qed
  have main: "(\<forall>t\<in>set (txts ! m). t_y t < length D \<and>
                \<not> isclose (where_pos (D ! t_y t ! fst ((c # cs) ! m))) 0) \<and>
            length (b_lefts (bars ! m)) = length D \<and>
            length (b_widths (bars ! m)) = length D \<and>
            (\<forall>k<length D.
               b_widths (bars ! m) ! k = where_pos (D ! k ! fst ((c # cs) ! m)) \<and>
               b_lefts (bars ! m) ! k = S0 ! k + (\<Sum>c\<leftarrow>take m (c # cs). where_pos (D ! k ! fst c)))"
    if m: "m < length (c # cs)" for m
  proof (cases m)
    case 0
    with first show ?thesis by (simp add: bars lS0 widths_def c)
  next
    case (Suc m')
    with m have "m' < length cs" by simp
    with ih have *: "(\<forall>t\<in>set (txts1 ! m'). t_y t < length D \<and>
                \<not> isclose (where_pos (D ! t_y t ! fst (cs ! m'))) 0) \<and>
            length (b_lefts (bars1 ! m')) = length D \<and>
            length (b_widths (bars1 ! m')) = length D \<and>
            (\<forall>k<length D.
               b_widths (bars1 ! m') ! k = where_pos (D ! k ! fst (cs ! m')) \<and>
               b_lefts (bars1 ! m') ! k = S1 ! k + (\<Sum>c\<leftarrow>take m' cs. where_pos (D ! k ! fst c)))"
      by blast
    then show ?thesis using S1k by (simp add: Suc bars txts c)
  qed
  have "length bars = length (c # cs)" "length txts = length (c # cs)"
    using ih by (simp_all add: bars txts)
  then show ?case using main unfolding S0_def by blast
qed









lemma index_with_totals_vals:
  "index_with_totals E a df = Inr df1 \<Longrightarrow>
     vals df1 = vals df \<and> columns df1 = columns df \<and> length (index df1) = length (index df)"
  by (auto simp: index_with_totals_def Let_def split: option.splits if_splits)




lemma plot_vbars_Inr:
  assumes "plot_vbars E a df = Inr r"
  obtains bvm ls ls' where
    "index_with_totals E a df = Inr (v_df_after r)"
    "map snd (iterrows_dict (v_df_after r)) \<noteq> []"
    "v_labels r = map fst (iterrows_dict (v_df_after r))"
    "negative_pass E a (map snd (iterrows_dict (v_df_after r))) (choose_colors E a (v_df_after r)) bvm
        (map np_sum (map snd (iterrows_dict (v_df_after r))))
        (map (\<lambda>row. sum_list (map where_neg row)) (map snd (iterrows_dict (v_df_after r))))
        (List.enumerate 0 (columns df)) None = Inr (neg_bars r, neg_texts r, Some ls)"
    "positive_pass E a (map snd (iterrows_dict (v_df_after r))) (choose_colors E a (v_df_after r)) bvm
        (map np_sum (map snd (iterrows_dict (v_df_after r))))
        (List.enumerate 0 (columns df)) (Some (map ((*) 0) ls)) = Inr (pos_bars r, pos_texts r, ls')"
  using assms unfolding plot_vbars_def Let_def
  by (auto split: sum.splits if_splits option.splits prod.splits)


lemma plot_vbars_passes:
  assumes "plot_vbars E a df = Inr r"
  shows "length (v_labels r) = length (np_data_of (v_df_after r)) \<and>
         vals (v_df_after r) = vals df \<and>
         length (neg_bars r) = length (columns df) \<and>
         length (pos_bars r) = length (columns df) \<and>
         length (neg_texts r) = length (columns df) \<and>
         length (pos_texts r) = length (columns df) \<and>
         (\<forall>i<length (columns df).
            (\<forall>t\<in>set (neg_texts r ! i). t_y t < length (np_data_of (v_df_after r)) \<and>
                \<not> isclose (where_neg (np_data_of (v_df_after r) ! t_y t ! i)) 0) \<and>
            (\<forall>t\<in>set (pos_texts r ! i). t_y t < length (np_data_of (v_df_after r)) \<and>
                \<not> isclose (where_pos (np_data_of (v_df_after r) ! t_y t ! i)) 0) \<and>
            (\<forall>k<length (np_data_of (v_df_after r)).
               b_widths (neg_bars r ! i) ! k = \<bar>where_neg (np_data_of (v_df_after r) ! k ! i)\<bar> \<and>
               b_lefts (neg_bars r ! i) ! k =
                 sum_list (map where_neg (np_data_of (v_df_after r) ! k)) +
                 (\<Sum>c\<leftarrow>take i (List.enumerate 0 (columns df)).
                    \<bar>where_neg (np_data_of (v_df_after r) ! k ! fst c)\<bar>) \<and>
               b_widths (pos_bars r ! i) ! k = where_pos (np_data_of (v_df_after r) ! k ! i) \<and>
               b_lefts (pos_bars r ! i) ! k =
                 (\<Sum>c\<leftarrow>take i (List.enumerate 0 (columns df)).
                    where_pos (np_data_of (v_df_after r) ! k ! fst c))))"
proof -
  define D where "D = np_data_of (v_df_after r)"
  define cs where "cs = List.enumerate 0 (columns df)"
  define init where "init = map (\<lambda>row. sum_list (map where_neg row)) D"
  from assms obtain bvm ls ls' where
        iw: "index_with_totals E a df = Inr (v_df_after r)"
    and lab: "v_labels r = map fst (iterrows_dict (v_df_after r))"
    and np: "negative_pass E a D (choose_colors E a (v_df_after r)) bvm (map np_sum D) init cs None
               = Inr (neg_bars r, neg_texts r, Some ls)"
    and pp: "positive_pass E a D (choose_colors E a (v_df_after r)) bvm (map np_sum D) cs
               (Some (map ((*) 0) ls)) = Inr (pos_bars r, pos_texts r, ls')"
    unfolding D_def np_data_of_def cs_def init_def by (rule plot_vbars_Inr)
  have li: "length (case None of None \<Rightarrow> init | Some ls \<Rightarrow> ls) = length D"
    by (simp add: init_def)
  note N = negative_pass_shape[OF np li]
  from N have lls: "length ls = length D" by simp
  then have lz: "length (case Some (map ((*) 0) ls) of None \<Rightarrow> replicate (length D) 0 | Some ls \<Rightarrow> ls)
                 = length D" by simp
  note P = positive_pass_shape[OF pp lz]
  have lcs: "length cs = length (columns df)" by (simp add: cs_def)
  have fcs: "fst (cs ! i) = i" if "i < length (columns df)" for i
    using that by (simp add: cs_def nth_enumerate_eq)
  have initk: "init ! k = sum_list (map where_neg (D ! k))" if "k < length D" for k
    using that by (simp add: init_def)
  have zk: "map ((*) 0) ls ! k = 0" if "k < length D" for k
    using that lls by simp
  have "length (v_labels r) = length D" by (simp add: lab D_def np_data_of_def)
  moreover have "vals (v_df_after r) = vals df" using index_with_totals_vals[OF iw] by simp
  moreover have "length (neg_bars r) = length (columns df)" "length (neg_texts r) = length (columns df)"
    using N lcs by simp_all
  moreover have "length (pos_bars r) = length (columns df)" "length (pos_texts r) = length (columns df)"
    using P lcs by simp_all
  moreover have "(\<forall>t\<in>set (neg_texts r ! i). t_y t < length D \<and>
                \<not> isclose (where_neg (D ! t_y t ! i)) 0) \<and>
            (\<forall>t\<in>set (pos_texts r ! i). t_y t < length D \<and>
                \<not> isclose (where_pos (D ! t_y t ! i)) 0) \<and>
            (\<forall>k<length D.
               b_widths (neg_bars r ! i) ! k = \<bar>where_neg (D ! k ! i)\<bar> \<and>
               b_lefts (neg_bars r ! i) ! k =
                 sum_list (map where_neg (D ! k)) +
                 (\<Sum>c\<leftarrow>take i cs. \<bar>where_neg (D ! k ! fst c)\<bar>) \<and>
               b_widths (pos_bars r ! i) ! k = where_pos (D ! k ! i) \<and>
               b_lefts (pos_bars r ! i) ! k = (\<Sum>c\<leftarrow>take i cs. where_pos (D ! k ! fst c)))"
    if i: "i < length (columns df)" for i
  proof -
    from i have ic: "i < length cs" by (simp add: lcs)
    from N ic have n1: "\<forall>t\<in>set (neg_texts r ! i). t_y t < length D \<and>
                \<not> isclose (where_neg (D ! t_y t ! fst (cs ! i))) 0"
      and n2: "\<forall>k<length D.
               b_widths (neg_bars r ! i) ! k = \<bar>where_neg (D ! k ! fst (cs ! i))\<bar> \<and>
               b_lefts (neg_bars r ! i) ! k =
                 (case None of None \<Rightarrow> init | Some ls \<Rightarrow> ls) ! k +
                 (\<Sum>c\<leftarrow>take i cs. \<bar>where_neg (D ! k ! fst c)\<bar>)"
      by blast+
    from P ic have p1: "\<forall>t\<in>set (pos_texts r ! i). t_y t < length D \<and>
                \<not> isclose (where_pos (D ! t_y t ! fst (cs ! i))) 0"
      and p2: "\<forall>k<length D.
               b_widths (pos_bars r ! i) ! k = where_pos (D ! k ! fst (cs ! i)) \<and>
               b_lefts (pos_bars r ! i) ! k =
                 (case Some (map ((*) 0) ls) of None \<Rightarrow> replicate (length D) 0 | Some ls \<Rightarrow> ls) ! k +
                 (\<Sum>c\<leftarrow>take i cs. where_pos (D ! k ! fst c))"
      by blast+
    show ?thesis using n1 n2 p1 p2 initk zk by (simp add: fcs[OF i])
  qed
  ultimately show ?thesis unfolding D_def cs_def by blast
qed



lemma isclose_where:
  "isclose v 0 \<Longrightarrow> isclose (where_neg (Some v)) 0 \<and> isclose (where_pos (Some v)) 0"
  by (cases "v < 0"; cases "v > 0") (simp_all add: where_neg_def where_pos_def isclose_def)

text \<open>
  Claim C4. Whatever the annotation toggles are, a segment whose value is zero within
  the tolerance of \<open>np.isclose\<close> gets no text, in the negative pass or in the positive
  pass: no text of column \<open>i\<close> is placed on row \<open>y\<close>.
\<close>

theorem plot_vbars_zero_not_annotated:
  assumes "plot_vbars E a df = Inr r"
      and "i < length (columns df)"
      and "np_data_of (v_df_after r) ! y ! i = Some v"
      and "isclose v 0"
  shows "\<forall>t\<in>set (neg_texts r ! i) \<union> set (pos_texts r ! i). t_y t \<noteq> y"
proof
  fix t assume t: "t \<in> set (neg_texts r ! i) \<union> set (pos_texts r ! i)"
  note S = plot_vbars_passes[OF assms(1)]
  have zn: "isclose (where_neg (np_data_of (v_df_after r) ! y ! i)) 0"
    using isclose_where[OF assms(4)] assms(3) by simp
  have zp: "isclose (where_pos (np_data_of (v_df_after r) ! y ! i)) 0"
    using isclose_where[OF assms(4)] assms(3) by simp
  from t show "t_y t \<noteq> y"
  proof
    assume "t \<in> set (neg_texts r ! i)"
    with S assms(2) have "\<not> isclose (where_neg (np_data_of (v_df_after r) ! t_y t ! i)) 0" by blast
    with zn show ?thesis by auto
  next
    assume "t \<in> set (pos_texts r ! i)"
    with S assms(2) have "\<not> isclose (where_pos (np_data_of (v_df_after r) ! t_y t ! i)) 0" by blast
    with zp show ?thesis by auto
  qed
qed

lemma plot_vbars_nan_not_annotated:
  assumes "plot_vbars E a df = Inr r"
      and "i < length (columns df)"
      and "np_data_of (v_df_after r) ! y ! i = None"
  shows "\<forall>t\<in>set (neg_texts r ! i) \<union> set (pos_texts r ! i). t_y t \<noteq> y"
proof
  fix t assume t: "t \<in> set (neg_texts r ! i) \<union> set (pos_texts r ! i)"
  note S = plot_vbars_passes[OF assms(1)]
  have z: "isclose (where_neg (np_data_of (v_df_after r) ! y ! i)) 0"
          "isclose (where_pos (np_data_of (v_df_after r) ! y ! i)) 0"
    using assms(3) by (simp_all add: where_neg_def where_pos_def isclose_def)
  from t show "t_y t \<noteq> y"
  proof
    assume "t \<in> set (neg_texts r ! i)"
    with S assms(2) have "\<not> isclose (where_neg (np_data_of (v_df_after r) ! t_y t ! i)) 0" by blast
    with z show ?thesis by auto
  next
    assume "t \<in> set (pos_texts r ! i)"
    with S assms(2) have "\<not> isclose (where_pos (np_data_of (v_df_after r) ! t_y t ! i)) 0" by blast
    with z show ?thesis by auto
  qed
qed

lemma ex_np_data:
  "np_data_of ex_weights = [[Some (1 / 2), Some (- (1 / 4))], [Some 0, Some 1]]"
  by (simp add: np_data_of_def iterrows_dict_def ex_weights_def)

lemma ex_plot_vbars: "plot_vbars ex_env ex_vbars_args ex_weights = Inr ex_vbars_result"
  by code_simp

lemma ex_plot_vbars_nan: "plot_vbars ex_env ex_vbars_args ex_nan_weights = Inr ex_nan_result"
  by code_simp



text \<open>
  Claim C4 on the same table: the zero of the second row, first column, has no text.
\<close>

theorem plot_vbars_zero_not_annotated_witness:
  "np_data_of (v_df_after ex_vbars_result) ! 1 ! 0 = Some 0 \<and>
   isclose 0 0 \<and>
   neg_texts ex_vbars_result ! 0 = [] \<and>
   map t_y (pos_texts ex_vbars_result ! 0) = [0]"
proof -
  have h2: "0 < length (columns ex_weights)" by (simp add: ex_weights_def)
  have d: "v_df_after ex_vbars_result = ex_weights" by (simp add: ex_vbars_result_def)
  have h3: "np_data_of (v_df_after ex_vbars_result) ! 1 ! 0 = Some 0"
    by (simp add: d ex_np_data)
  have h4: "isclose 0 0" by (simp add: isclose_def)
  note th = plot_vbars_zero_not_annotated[OF ex_plot_vbars h2 h3 h4]
  then have "\<forall>t\<in>set (pos_texts ex_vbars_result ! 0). t_y t \<noteq> 1" by simp
  then show ?thesis using h3 h4 by (simp add: ex_vbars_result_def)
qed

section \<open>Properties of the aggregator\<close>

subsection \<open>Pairwise instrument profit and loss difference\<close>

lemma union_sorted_commute: "union_sorted xs ys = union_sorted ys xs"
proof -
  have "sort (remdups (xs @ ys)) = sort (remdups (ys @ xs))"
    by (rule sorted_distinct_set_unique) auto
  then show ?thesis by (auto simp: union_sorted_def)
qed

lemma reindexed_rows:
  "f_rows (fillna x (reindex_columns (reindex_rows F rows) cols)) =
     map (\<lambda>r. map (\<lambda>c. case (case index_of c (f_columns F) of
                                  None \<Rightarrow> None
                                | Some j \<Rightarrow> row_at F r ! j) of
                          None \<Rightarrow> Some x
                        | Some y \<Rightarrow> Some y) cols) rows"
  by (simp add: fillna_def reindex_columns_def reindex_rows_def comp_def)

lemma reindexed_labels:
  "f_index (fillna x (reindex_columns (reindex_rows F rows) cols)) = rows"
  "f_columns (fillna x (reindex_columns (reindex_rows F rows) cols)) = cols"
  by (simp_all add: fillna_def reindex_columns_def reindex_rows_def)

lemma sub_val_filled:
  "map_option uminus
     (sub_val (case a of None \<Rightarrow> Some x | Some y \<Rightarrow> Some y)
              (case b of None \<Rightarrow> Some x | Some y \<Rightarrow> Some y)) =
   sub_val (case b of None \<Rightarrow> Some x | Some y \<Rightarrow> Some y)
           (case a of None \<Rightarrow> Some x | Some y \<Rightarrow> Some y)"
  by (simp add: sub_val_def split: option.splits)

lemma pnl_diff_fields:
  "f_index (pnl_diff A B) = union_sorted (f_index A) (f_index B)"
  "f_columns (pnl_diff A B) = union_sorted (f_columns A) (f_columns B)"
  "f_rows (pnl_diff A B) =
     map (\<lambda>r. map (\<lambda>c. sub_val
                 (case (case index_of c (f_columns A) of None \<Rightarrow> None
                        | Some j \<Rightarrow> row_at A r ! j) of None \<Rightarrow> Some 0 | Some y \<Rightarrow> Some y)
                 (case (case index_of c (f_columns B) of None \<Rightarrow> None
                        | Some j \<Rightarrow> row_at B r ! j) of None \<Rightarrow> Some 0 | Some y \<Rightarrow> Some y))
               (union_sorted (f_columns A) (f_columns B)))
         (union_sorted (f_index A) (f_index B))"
  by (simp_all add: pnl_diff_def align_outer_def Let_def subtract_aligned_def
      reindexed_rows reindexed_labels map2_map_map)

lemma pnl_diff_neg: "pnl_diff A B = neg_frame (pnl_diff B A)"
proof (rule frame.equality)
  show "f_index (pnl_diff A B) = f_index (neg_frame (pnl_diff B A))"
    by (simp add: neg_frame_def pnl_diff_fields union_sorted_commute[of "f_index A"])
  show "f_columns (pnl_diff A B) = f_columns (neg_frame (pnl_diff B A))"
    by (simp add: neg_frame_def pnl_diff_fields union_sorted_commute[of "f_columns A"])
  show "f_rows (pnl_diff A B) = f_rows (neg_frame (pnl_diff B A))"
    by (simp add: neg_frame_def pnl_diff_fields union_sorted_commute[of "f_index A"]
        union_sorted_commute[of "f_columns A"] comp_def sub_val_filled)
qed simp

lemma cumsum_rows_neg:
  "cumsum_rows (map uminus acc) (map (map (map_option uminus)) rows) =
   map (map (map_option uminus)) (cumsum_rows acc rows)"
proof (induction rows arbitrary: acc)
  case Nil
  then show ?case by simp
next
  case (Cons row rows)
  have a: "map2 (\<lambda>a v. case v of None \<Rightarrow> None | Some x \<Rightarrow> Some (a + x)) (map uminus acc)
             (map (map_option uminus) row) =
           map (map_option uminus)
             (map2 (\<lambda>a v. case v of None \<Rightarrow> None | Some x \<Rightarrow> Some (a + x)) acc row)"
    by (simp add: zip_map_map split_def comp_def split: option.splits cong: map_cong)
  have b: "map2 (\<lambda>a v. case v of None \<Rightarrow> a | Some x \<Rightarrow> a + x) (map uminus acc)
             (map (map_option uminus) row) =
           map uminus (map2 (\<lambda>a v. case v of None \<Rightarrow> a | Some x \<Rightarrow> a + x) acc row)"
    by (simp add: zip_map_map split_def comp_def)
       (auto intro!: map_cong split: option.splits)
  show ?case using Cons.IH[of "map2 (\<lambda>a v. case v of None \<Rightarrow> a | Some x \<Rightarrow> a + x) acc row"]
    by (simp add: a b)
qed

lemma cumsum_neg: "cumsum (neg_frame F) = neg_frame (cumsum F)"
proof -
  have "replicate n (0::real) = map uminus (replicate n 0)" for n by simp
  then show ?thesis
    using cumsum_rows_neg[of "replicate (length (f_columns F)) 0" "f_rows F"]
    by (simp add: cumsum_def neg_frame_def)
qed

text \<open>
  Claim C5. The difference of lines 297-301 is anti-symmetric: the table for \<open>(A, B)\<close>
  is the negation of the table for \<open>(B, A)\<close>, with the same row and column labels,
  entry by entry. The running sums of line 311 are anti-symmetric as well, and so is the
  table \<open>plot_instrument_pnl_diff\<close> hands to the plot when it is not grouped (with no
  time period and no benchmark), also where an index is out of range on both sides.
\<close>

theorem pnl_diff_antisymmetric:
  "pnl_diff A B = neg_frame (pnl_diff B A) \<and>
   cumsum (pnl_diff A B) = neg_frame (cumsum (pnl_diff B A)) \<and>
   plot_instrument_pnl_diff X s i j False None None =
     map_sum id neg_frame (plot_instrument_pnl_diff X s j i False None None)"
proof (intro conjI)
  show 1: "pnl_diff A B = neg_frame (pnl_diff B A)" by (rule pnl_diff_neg)
  show "cumsum (pnl_diff A B) = neg_frame (cumsum (pnl_diff B A))"
    using pnl_diff_neg[of A B] cumsum_neg[of "pnl_diff B A"] by simp
  have e: "py_getitem xs k = Inl e \<Longrightarrow> e = IndexError" for xs :: "portfolio_data list" and k e
    by (auto simp: py_getitem_def split: if_splits)
  have c: "cumsum (pnl_diff (instrument_pnl p) (instrument_pnl q)) =
        neg_frame (cumsum (pnl_diff (instrument_pnl q) (instrument_pnl p)))" for p q
    using pnl_diff_neg[of "instrument_pnl p" "instrument_pnl q"]
          cumsum_neg[of "pnl_diff (instrument_pnl q) (instrument_pnl p)"] by simp
  show "plot_instrument_pnl_diff X s i j False None None =
     map_sum id neg_frame (plot_instrument_pnl_diff X s j i False None None)"
  proof (cases "py_getitem (portfolio_datas s) i")
    case (Inl a)
    with e have "py_getitem (portfolio_datas s) i = Inl IndexError" by blast
    then show ?thesis
      using e[of "portfolio_datas s" j]
      by (cases "py_getitem (portfolio_datas s) j") (simp_all add: plot_instrument_pnl_diff_def)
  next
    case p: (Inr p)
    show ?thesis
    proof (cases "py_getitem (portfolio_datas s) j")
      case (Inl a)
      with e have "py_getitem (portfolio_datas s) j = Inl IndexError" by blast
      with p show ?thesis by (simp add: plot_instrument_pnl_diff_def)
    next
      case q: (Inr q)
      with p c[of p q] show ?thesis by (simp add: plot_instrument_pnl_diff_def Let_def)
    qed
  qed
qed

subsection \<open>The unified NAV table and the benchmark table\<close>

lemma index_of_None: "index_of x xs = None \<longleftrightarrow> x \<notin> set xs"
  by (induction xs) auto

lemma index_of_Some: "index_of x xs = Some i \<Longrightarrow> i < length xs \<and> xs ! i = x"
  by (induction xs arbitrary: i) (auto split: if_splits)

lemma index_of_nth: "distinct xs \<Longrightarrow> j < length xs \<Longrightarrow> index_of (xs ! j) xs = Some j"
proof (induction xs arbitrary: j)
  case Nil
  then show ?case by simp
next
  case (Cons x xs)
  then show ?case by (cases j) auto
qed

lemma union_sorted_strict:
  assumes "sorted xs" "distinct xs" "sorted ys" "distinct ys"
  shows "sorted (union_sorted xs ys) \<and> distinct (union_sorted xs ys) \<and>
         set (union_sorted xs ys) = set xs \<union> set ys"
  using assms by (auto simp: union_sorted_def)

lemma foldl_union_sorted_strict:
  assumes "sorted acc" "distinct acc" "\<forall>ys\<in>set yss. sorted ys \<and> distinct ys"
  shows "sorted (foldl union_sorted acc yss) \<and> distinct (foldl union_sorted acc yss) \<and>
         set (foldl union_sorted acc yss) = set acc \<union> \<Union> (set ` set yss)"
  using assms
proof (induction yss arbitrary: acc)
  case Nil
  then show ?case by simp
next
  case (Cons ys yss)
  from Cons.prems have y: "sorted ys" "distinct ys" by simp_all
  note u = union_sorted_strict[OF Cons.prems(1,2) y]
  from Cons.prems(3) have r: "\<forall>ys\<in>set yss. sorted ys \<and> distinct ys" by simp
  from Cons.IH[of "union_sorted acc ys"] u r show ?case by auto
qed

lemma concat_singletons: "concat (map (\<lambda>x. [f x]) xs) = map f xs"
  by (induction xs) auto

lemma series_cell:
  assumes "length (s_values s) = length (s_index s)" and "distinct (s_index s)"
      and "k < length idx"
  shows "(if f_index (to_frame s) = idx then f_rows (to_frame s) ! k
          else row_at (to_frame s) (idx ! k)) = [value_at s (idx ! k)]"
proof (cases "s_index s = idx")
  case True
  with assms index_of_nth[of idx k] show ?thesis
    by (simp add: to_frame_def value_at_def)
next
  case False
  show ?thesis
  proof (cases "index_of (idx ! k) (s_index s)")
    case None
    with False show ?thesis by (simp add: to_frame_def value_at_def row_at_def)
  next
    case (Some j)
    with index_of_Some[OF Some] assms(1) False show ?thesis
      by (simp add: to_frame_def value_at_def row_at_def)
  qed
qed

lemma pd_concat_series:
  assumes "ss \<noteq> []"
      and "\<forall>s\<in>set ss. sorted (s_index s) \<and> distinct (s_index s) \<and>
                         length (s_values s) = length (s_index s)"
  shows "\<exists>N. pd_concat union_sorted (map to_frame ss) = Inr N \<and>
             f_columns N = map s_name ss \<and>
             sorted (f_index N) \<and> distinct (f_index N) \<and>
             set (f_index N) = \<Union> (set ` s_index ` set ss) \<and>
             length (f_rows N) = length (f_index N) \<and>
             (\<forall>k<length (f_index N). f_rows N ! k = map (\<lambda>s. value_at s (f_index N ! k)) ss)"
proof -
  from assms(1) obtain s0 rest where ss: "ss = s0 # rest" by (cases ss) auto
  define idx where "idx = foldl union_sorted (f_index (to_frame s0)) (map f_index (map to_frame rest))"
  have i0: "sorted (f_index (to_frame s0))" "distinct (f_index (to_frame s0))"
    using assms(2) by (simp_all add: ss to_frame_def)
  have ir: "\<forall>ys\<in>set (map f_index (map to_frame rest)). sorted ys \<and> distinct ys"
    using assms(2) by (auto simp: ss to_frame_def)
  note fu = foldl_union_sorted_strict[OF i0 ir, folded idx_def]
  have nodup: "\<not> list_ex (\<lambda>F. f_index F \<noteq> idx \<and> \<not> distinct (f_index F)) (map to_frame ss)"
    using assms(2) by (auto simp: list_ex_iff to_frame_def)
  define N where "N = \<lparr>f_index = idx,
                       f_columns = concat (map f_columns (map to_frame ss)),
                       f_rows = map (\<lambda>k. concat (map (\<lambda>F. if f_index F = idx then f_rows F ! k
                                                              else row_at F (idx ! k)) (map to_frame ss)))
                                    [0..<length idx]\<rparr>"
  have c: "pd_concat union_sorted (map to_frame ss) = Inr N"
    using nodup unfolding N_def idx_def by (simp add: pd_concat_def ss Let_def)
  have cols: "f_columns N = map s_name ss"
    by (simp add: N_def to_frame_def comp_def concat_singletons)
  have rows: "f_rows N ! k = map (\<lambda>s. value_at s (f_index N ! k)) ss" if k: "k < length (f_index N)" for k
  proof -
    from k have k': "k < length idx" by (simp add: N_def)
    have "map (\<lambda>F. if f_index F = idx then f_rows F ! k else row_at F (idx ! k)) (map to_frame ss)
          = map (\<lambda>s. [value_at s (idx ! k)]) ss"
      using assms(2) series_cell[OF _ _ k'] by (simp add: comp_def)
    moreover have "f_rows N ! k =
          concat (map (\<lambda>F. if f_index F = idx then f_rows F ! k else row_at F (idx ! k))
                      (map to_frame ss))"
      using k' by (simp add: N_def cong: if_cong)
    moreover have "f_index N ! k = idx ! k" by (simp add: N_def)
    ultimately show ?thesis by (simp only: concat_singletons)
  qed
  have "set (f_index N) = \<Union> (set ` s_index ` set ss)"
    using fu by (auto simp: N_def ss to_frame_def)
  moreover have "sorted (f_index N)" "distinct (f_index N)" using fu by (simp_all add: N_def)
  moreover have "length (f_rows N) = length (f_index N)" by (simp add: N_def)
  ultimately show ?thesis using c cols rows by blast
qed

lemma pad_increasing_spec:
  assumes "sorted idx"
  shows "case pad_increasing idx t of
           None \<Rightarrow> (\<forall>x\<in>set idx. t < x)
         | Some i \<Rightarrow> i < length idx \<and> idx ! i \<le> t \<and> (\<forall>j<length idx. i < j \<longrightarrow> t < idx ! j)"
proof -
  define n where "n = length (takeWhile (\<lambda>x. x \<le> t) idx)"
  have nle: "n \<le> length idx" by (simp add: n_def length_takeWhile_le)
  have stop: "t < idx ! n" if "n < length idx"
    using that nth_length_takeWhile[of "\<lambda>x. x \<le> t" idx] by (simp add: n_def)
  have after: "t < idx ! j" if "n \<le> j" "j < length idx" for j
  proof -
    from that have "n < length idx" by simp
    then have "t < idx ! n" by (rule stop)
    moreover have "idx ! n \<le> idx ! j" using assms that by (simp add: sorted_iff_nth_mono)
    ultimately show ?thesis by simp
  qed
  show ?thesis
  proof (cases "n = 0")
    case True
    have "t < x" if "x \<in> set idx" for x
    proof -
      from that obtain j where "j < length idx" "idx ! j = x" by (auto simp: in_set_conv_nth)
      with after[of j] True show ?thesis by simp
    qed
    with True show ?thesis by (simp add: pad_increasing_def n_def[symmetric])
  next
    case False
    then have i: "n - 1 < n" by simp
    then have "takeWhile (\<lambda>x. x \<le> t) idx ! (n - 1) = idx ! (n - 1)"
      by (simp add: n_def takeWhile_nth)
    moreover have "takeWhile (\<lambda>x. x \<le> t) idx ! (n - 1) \<in> set (takeWhile (\<lambda>x. x \<le> t) idx)"
      using i by (simp add: n_def)
    ultimately have le: "idx ! (n - 1) \<le> t" by (auto dest: set_takeWhileD)
    have "t < idx ! j" if "j < length idx" "n - 1 < j" for j
      using after[of j] that by simp
    with False le i nle show ?thesis
      by (simp add: pad_increasing_def n_def[symmetric])
  qed
qed

lemma pad_increasing_self:
  assumes "sorted idx" and "distinct idx" and "k < length idx"
  shows "pad_increasing idx (idx ! k) = Some k"
proof (cases "pad_increasing idx (idx ! k)")
  case None
  with pad_increasing_spec[OF assms(1), of "idx ! k"]
  have "\<forall>x\<in>set idx. idx ! k < x" by simp
  moreover have "idx ! k \<in> set idx" using assms(3) by simp
  ultimately have "idx ! k < idx ! k" by blast
  then show ?thesis by simp
next
  case (Some i)
  with pad_increasing_spec[OF assms(1), of "idx ! k"]
  have i: "i < length idx" and le: "idx ! i \<le> idx ! k"
    and gt: "\<forall>j<length idx. i < j \<longrightarrow> idx ! k < idx ! j" by simp_all
  from gt assms(3) have "\<not> i < k" by auto
  then have "k \<le> i" by simp
  with assms(1) i have "idx ! k \<le> idx ! i" by (simp add: sorted_iff_nth_mono)
  with le have "idx ! i = idx ! k" by simp
  with assms(2,3) i have "i = k" by (simp add: nth_eq_iff_index_eq)
  with Some show ?thesis by simp
qed

lemma padded_rows_self:
  assumes "sorted (f_index F)" and "distinct (f_index F)"
      and "length (f_rows F) = length (f_index F)"
  shows "padded_rows F (pad_increasing (f_index F)) (f_index F) = f_rows F"
  using assms pad_increasing_self[OF assms(1,2)]
  by (simp add: padded_rows_def list_eq_iff_nth_eq)

lemma reindex_ffill_increasing:
  assumes "sorted (f_index F)" and "distinct (f_index F)"
  shows "reindex_ffill F new_index =
           Inr (F\<lparr>f_index := new_index,
                   f_rows := padded_rows F (pad_increasing (f_index F)) new_index\<rparr>)"
  using assms by (simp add: reindex_ffill_def)

lemma reindex_ffill_Inr:
  assumes "reindex_ffill F new_index = Inr G"
  shows "f_index G = new_index \<and> f_columns G = f_columns F"
  using assms by (auto simp: reindex_ffill_def split: if_splits)

lemma date_range_strict:
  assumes "0 < step"
  shows "sorted (date_range lo hi step) \<and> distinct (date_range lo hi step)"
proof -
  have "sorted (date_range lo hi step)"
    by (simp add: date_range_def sorted_iff_nth_mono del: upt_Suc)
  moreover have "distinct (date_range lo hi step)"
    using assms by (simp add: date_range_def distinct_map inj_on_def del: upt_Suc)
  ultimately show ?thesis by simp
qed

lemma asfreq_Inr:
  assumes "asfreq F fr = Inr G"
  shows "f_columns G = f_columns F \<and> sorted (f_index G) \<and> distinct (f_index G)"
proof -
  obtain step where fr: "fr = Every step" by (cases fr)
  from assms fr obtain t ts where ix: "f_index F = t # ts" and st: "0 < step"
    and r: "reindex_ffill F (date_range (fold min ts t) (fold max ts t) step) = Inr G"
    by (auto simp: asfreq_def split: list.splits if_splits)
  from reindex_ffill_Inr[OF r] date_range_strict[OF st] show ?thesis by simp
qed

lemma navs_concat:
  assumes "portfolio_datas s \<noteq> []"
      and "\<forall>p\<in>set (portfolio_datas s). sorted (s_index (nav p)) \<and> distinct (s_index (nav p)) \<and>
             length (s_values (nav p)) = length (s_index (nav p))"
  shows "\<exists>N. pd_concat union_sorted (map (\<lambda>p. to_frame (get_portfolio_nav p)) (portfolio_datas s)) = Inr N \<and>
             f_columns N = map (\<lambda>p. s_name (nav p)) (portfolio_datas s) \<and>
             sorted (f_index N) \<and> distinct (f_index N) \<and>
             set (f_index N) = (\<Union>p\<in>set (portfolio_datas s). set (s_index (nav p))) \<and>
             length (f_rows N) = length (f_index N) \<and>
             (\<forall>k<length (f_index N).
                f_rows N ! k = map (\<lambda>p. value_at (nav p) (f_index N ! k)) (portfolio_datas s))"
proof -
  define ss where "ss = map nav (portfolio_datas s)"
  have a: "ss \<noteq> []" using assms(1) by (simp add: ss_def)
  have b: "\<forall>s\<in>set ss. sorted (s_index s) \<and> distinct (s_index s) \<and>
                         length (s_values s) = length (s_index s)"
    using assms(2) by (auto simp: ss_def)
  have c: "map (\<lambda>p. to_frame (get_portfolio_nav p)) (portfolio_datas s) = map to_frame ss"
    by (simp add: ss_def get_portfolio_nav_def)
  from pd_concat_series[OF a b] show ?thesis
    unfolding c by (simp add: ss_def comp_def)
qed

text \<open>
  Claim C6. For a non-empty list of portfolios whose NAV series have strictly increasing
  timestamps and one value per timestamp: when \<open>set_navs\<close> completes, the unified
  table has one column per portfolio, named after its NAV series, in order, and its index
  is strictly increasing; called without a frequency, its index is the union of the
  portfolios' timestamps and row \<open>k\<close> holds every portfolio's NAV at timestamp \<open>k\<close>
  (\<open>NaN\<close> where it has none). It can fail only by the frequency or by the benchmark.
\<close>

theorem set_navs_unified_table:
  assumes "portfolio_datas s \<noteq> []"
      and "\<forall>p\<in>set (portfolio_datas s). sorted (s_index (nav p)) \<and> distinct (s_index (nav p)) \<and>
             length (s_values (nav p)) = length (s_index (nav p))"
  shows "case set_navs fr s of
           Inl e \<Rightarrow> fr \<noteq> None \<or> benchmark_prices s \<noteq> None
         | Inr s' \<Rightarrow>
             (\<exists>N. navs s' = Some N \<and>
                  f_columns N = map (\<lambda>p. s_name (nav p)) (portfolio_datas s) \<and>
                  sorted (f_index N) \<and> distinct (f_index N) \<and>
                  (fr = None \<longrightarrow>
                     set (f_index N) = (\<Union>p\<in>set (portfolio_datas s). set (s_index (nav p))) \<and>
                     (\<forall>k<length (f_index N).
                        f_rows N ! k =
                          map (\<lambda>p. value_at (nav p) (f_index N ! k)) (portfolio_datas s))))"
proof -
  from navs_concat[OF assms] obtain N0 where
        c: "pd_concat union_sorted (map (\<lambda>p. to_frame (get_portfolio_nav p)) (portfolio_datas s)) = Inr N0"
    and cols: "f_columns N0 = map (\<lambda>p. s_name (nav p)) (portfolio_datas s)"
    and so: "sorted (f_index N0)" "distinct (f_index N0)"
    and ix: "set (f_index N0) = (\<Union>p\<in>set (portfolio_datas s). set (s_index (nav p)))"
    and rows: "\<forall>k<length (f_index N0).
                f_rows N0 ! k = map (\<lambda>p. value_at (nav p) (f_index N0 ! k)) (portfolio_datas s)"
    by blast
  show ?thesis
  proof (cases fr)
    case None
    show ?thesis
    proof (cases "benchmark_prices s")
      case n: None
      with None c cols so ix rows show ?thesis by (simp add: set_navs_def)
    next
      case (Some bp)
      show ?thesis
      proof (cases "reindex_ffill bp (f_index N0)")
        case (Inl e)
        with None Some c show ?thesis by (simp add: set_navs_def)
      next
        case (Inr bp')
        with None Some c cols so ix rows show ?thesis by (simp add: set_navs_def)
      qed
    qed
  next
    case (Some f)
    show ?thesis
    proof (cases "asfreq N0 f")
      case (Inl e)
      with Some c show ?thesis by (simp add: set_navs_def)
    next
      case (Inr N1)
      from asfreq_Inr[OF Inr] cols have p: "f_columns N1 = map (\<lambda>p. s_name (nav p)) (portfolio_datas s)"
        "sorted (f_index N1)" "distinct (f_index N1)" by simp_all
      show ?thesis
      proof (cases "benchmark_prices s")
        case None
        with Some c Inr p show ?thesis by (simp add: set_navs_def)
      next
        case b: (Some bp)
        show ?thesis
        proof (cases "reindex_ffill bp (f_index N1)")
          case (Inl e)
          with Some b c Inr show ?thesis by (simp add: set_navs_def)
        next
          case r: (Inr bp')
          with Some b c Inr p show ?thesis by (simp add: set_navs_def)
        qed
      qed
    qed
  qed
qed

text \<open>
  Claim C7. Attaching a benchmark table with strictly increasing timestamps runs
  \<open>set_navs\<close> with no frequency on the state holding the new table, and completes: the
  unified table is rebuilt from the portfolios, and the stored benchmark table has
  exactly the index of the rebuilt table, its own columns, and at every timestamp the row
  of its last timestamp not after it (\<open>NaN\<close>s where there is none).
\<close>

theorem set_benchmark_prices_index:
  assumes "portfolio_datas s \<noteq> []"
      and "\<forall>p\<in>set (portfolio_datas s). sorted (s_index (nav p)) \<and> distinct (s_index (nav p)) \<and>
             length (s_values (nav p)) = length (s_index (nav p))"
      and "sorted (f_index bp)" and "distinct (f_index bp)"
  shows "set_benchmark_prices bp s = set_navs None (s\<lparr>benchmark_prices := Some bp\<rparr>) \<and>
         (\<exists>N B. pd_concat union_sorted
                   (map (\<lambda>p. to_frame (get_portfolio_nav p)) (portfolio_datas s)) = Inr N \<and>
                set_benchmark_prices bp s = Inr (s\<lparr>navs := Some N, benchmark_prices := Some B\<rparr>) \<and>
                f_index B = f_index N \<and>
                f_columns B = f_columns bp \<and>
                length (f_rows B) = length (f_index N) \<and>
                (\<forall>k<length (f_index N).
                   case pad_increasing (f_index bp) (f_index N ! k) of
                     None \<Rightarrow> f_rows B ! k = replicate (length (f_columns bp)) None \<and>
                             (\<forall>x\<in>set (f_index bp). f_index N ! k < x)
                   | Some i \<Rightarrow> f_rows B ! k = f_rows bp ! i \<and> i < length (f_index bp) \<and>
                               f_index bp ! i \<le> f_index N ! k \<and>
                               (\<forall>j<length (f_index bp). i < j \<longrightarrow> f_index N ! k < f_index bp ! j)))"
proof -
  from navs_concat[OF assms(1,2)] obtain N where
    c: "pd_concat union_sorted (map (\<lambda>p. to_frame (get_portfolio_nav p)) (portfolio_datas s)) = Inr N"
    by blast
  define B where "B = bp\<lparr>f_index := f_index N,
                         f_rows := padded_rows bp (pad_increasing (f_index bp)) (f_index N)\<rparr>"
  have r: "reindex_ffill bp (f_index N) = Inr B"
    unfolding B_def by (rule reindex_ffill_increasing[OF assms(3,4)])
  have run: "set_benchmark_prices bp s = Inr (s\<lparr>navs := Some N, benchmark_prices := Some B\<rparr>)"
    by (simp add: set_benchmark_prices_def set_navs_def c r)
  have row: "case pad_increasing (f_index bp) (f_index N ! k) of
                     None \<Rightarrow> f_rows B ! k = replicate (length (f_columns bp)) None \<and>
                             (\<forall>x\<in>set (f_index bp). f_index N ! k < x)
                   | Some i \<Rightarrow> f_rows B ! k = f_rows bp ! i \<and> i < length (f_index bp) \<and>
                               f_index bp ! i \<le> f_index N ! k \<and>
                               (\<forall>j<length (f_index bp). i < j \<longrightarrow> f_index N ! k < f_index bp ! j)"
    if k: "k < length (f_index N)" for k
    using pad_increasing_spec[OF assms(3), of "f_index N ! k"] k
    by (auto simp: B_def padded_rows_def split: option.splits)
  have "f_index B = f_index N" "f_columns B = f_columns bp" "length (f_rows B) = length (f_index N)"
    by (simp_all add: B_def padded_rows_def)
  with c run row have "\<exists>N B. pd_concat union_sorted
                   (map (\<lambda>p. to_frame (get_portfolio_nav p)) (portfolio_datas s)) = Inr N \<and>
                set_benchmark_prices bp s = Inr (s\<lparr>navs := Some N, benchmark_prices := Some B\<rparr>) \<and>
                f_index B = f_index N \<and>
                f_columns B = f_columns bp \<and>
                length (f_rows B) = length (f_index N) \<and>
                (\<forall>k<length (f_index N).
                   case pad_increasing (f_index bp) (f_index N ! k) of
                     None \<Rightarrow> f_rows B ! k = replicate (length (f_columns bp)) None \<and>
                             (\<forall>x\<in>set (f_index bp). f_index N ! k < x)
                   | Some i \<Rightarrow> f_rows B ! k = f_rows bp ! i \<and> i < length (f_index bp) \<and>
                               f_index bp ! i \<le> f_index N ! k \<and>
                               (\<forall>j<length (f_index bp). i < j \<longrightarrow> f_index N ! k < f_index bp ! j))"
    by blast
  then show ?thesis by (simp add: set_benchmark_prices_def)
qed

lemma ex_wf:
  "\<forall>p\<in>set (portfolio_datas ex_multi). sorted (s_index (nav p)) \<and> distinct (s_index (nav p)) \<and>
             length (s_values (nav p)) = length (s_index (nav p))"
  by (simp add: ex_multi_def ex_portfolio_a_def ex_portfolio_b_def)

lemma ex_nonempty: "portfolio_datas ex_multi \<noteq> []"
  by (simp add: ex_multi_def)

lemma ex_concat_navs:
  "pd_concat union_sorted (map (\<lambda>p. to_frame (get_portfolio_nav p)) (portfolio_datas ex_multi))
     = Inr ex_navs"
  by code_simp

lemma ex_reindex_benchmarks:
  "reindex_ffill ex_benchmarks (f_index ex_navs) = Inr ex_benchmarks_on_navs"
  by code_simp

lemma ex_set_navs: "set_navs None ex_multi = Inr (ex_multi\<lparr>navs := Some ex_navs\<rparr>)"
proof -
  have "benchmark_prices ex_multi = None" by (simp add: ex_multi_def)
  then show ?thesis by (simp add: set_navs_def ex_concat_navs)
qed

lemma ex_set_benchmark:
  "set_benchmark_prices ex_benchmarks ex_multi =
     Inr (ex_multi\<lparr>navs := Some ex_navs, benchmark_prices := Some ex_benchmarks_on_navs\<rparr>)"
  by (simp add: set_benchmark_prices_def set_navs_def ex_concat_navs ex_reindex_benchmarks)

text \<open>
  Claim C6 on two portfolios with the timestamps 1, 2, 4 and 2, 3.
\<close>

theorem set_navs_unified_table_witness:
  "set_navs None ex_multi = Inr (ex_multi\<lparr>navs := Some ex_navs\<rparr>) \<and>
   f_columns ex_navs = [''A'', ''B''] \<and>
   sorted (f_index ex_navs) \<and> distinct (f_index ex_navs) \<and>
   set (f_index ex_navs) = {1, 2, 3, 4} \<and>
   f_rows ex_navs ! 1 = [value_at (nav ex_portfolio_a) 2, value_at (nav ex_portfolio_b) 2]"
proof -
  note th = set_navs_unified_table[OF ex_nonempty ex_wf, of None]
  have n: "navs (ex_multi\<lparr>navs := Some ex_navs\<rparr>) = Some ex_navs" by simp
  from th have "f_columns ex_navs = map (\<lambda>p. s_name (nav p)) (portfolio_datas ex_multi) \<and>
         sorted (f_index ex_navs) \<and> distinct (f_index ex_navs) \<and>
         set (f_index ex_navs) = (\<Union>p\<in>set (portfolio_datas ex_multi). set (s_index (nav p))) \<and>
         (\<forall>k<length (f_index ex_navs).
            f_rows ex_navs ! k = map (\<lambda>p. value_at (nav p) (f_index ex_navs ! k)) (portfolio_datas ex_multi))"
    unfolding ex_set_navs by (simp add: n)
  moreover have "(1::nat) < length (f_index ex_navs)" by (simp add: ex_navs_def)
  ultimately have "f_columns ex_navs = map (\<lambda>p. s_name (nav p)) (portfolio_datas ex_multi) \<and>
         sorted (f_index ex_navs) \<and> distinct (f_index ex_navs) \<and>
         set (f_index ex_navs) = (\<Union>p\<in>set (portfolio_datas ex_multi). set (s_index (nav p))) \<and>
         f_rows ex_navs ! 1 = map (\<lambda>p. value_at (nav p) (f_index ex_navs ! 1)) (portfolio_datas ex_multi)"
    by blast
  then show ?thesis using ex_set_navs
    by (simp add: ex_multi_def ex_portfolio_a_def ex_portfolio_b_def ex_navs_def)
qed

text \<open>
  Claim C7 on the same portfolios and a benchmark table with the timestamps 0, 2, 5.
\<close>

theorem set_benchmark_prices_index_witness:
  "set_benchmark_prices ex_benchmarks ex_multi =
     Inr (ex_multi\<lparr>navs := Some ex_navs, benchmark_prices := Some ex_benchmarks_on_navs\<rparr>) \<and>
   f_index ex_benchmarks_on_navs = f_index ex_navs \<and>
   f_index ex_navs = [1, 2, 3, 4]"
proof -
  have a: "sorted (f_index ex_benchmarks)" "distinct (f_index ex_benchmarks)"
    by (simp_all add: ex_benchmarks_def)
  from set_benchmark_prices_index[OF ex_nonempty ex_wf a]
  obtain N B where
      1: "pd_concat union_sorted
            (map (\<lambda>p. to_frame (get_portfolio_nav p)) (portfolio_datas ex_multi)) = Inr N"
  and 2: "set_benchmark_prices ex_benchmarks ex_multi =
            Inr (ex_multi\<lparr>navs := Some N, benchmark_prices := Some B\<rparr>)"
  and 3: "f_index B = f_index N" by blast
  from 1 ex_concat_navs have N: "N = ex_navs" by simp
  from 2 ex_set_benchmark have "ex_multi\<lparr>navs := Some N, benchmark_prices := Some B\<rparr> =
       ex_multi\<lparr>navs := Some ex_navs, benchmark_prices := Some ex_benchmarks_on_navs\<rparr>" by simp
  then have "benchmark_prices (ex_multi\<lparr>navs := Some N, benchmark_prices := Some B\<rparr>) =
       benchmark_prices (ex_multi\<lparr>navs := Some ex_navs, benchmark_prices := Some ex_benchmarks_on_navs\<rparr>)"
    by (rule arg_cong)
  then have B: "B = ex_benchmarks_on_navs" by simp
  from 3 N B ex_set_benchmark show ?thesis by (simp add: ex_navs_def)
qed

subsection \<open>Performance attribution\<close>

lemma zip_fst_snd: "zip (map fst zs) (map snd zs) = zs"
  by (induction zs) auto

lemma dropna_replace_lines:
  "filter (\<lambda>(l, row). None \<notin> set row)
          (zip ix (map (map (\<lambda>v. if v = Some (0::real) then None else v)) rows)) =
   filter (\<lambda>(l, row). \<forall>v\<in>set row. v \<noteq> None \<and> v \<noteq> Some 0) (zip ix rows)"
proof (induction rows arbitrary: ix)
  case Nil
  then show ?case by simp
next
  case (Cons row rows)
  show ?case
  proof (cases ix)
    case Nil
    then show ?thesis by simp
  next
    case (Cons l ls)
    have keep: "map (\<lambda>v. if v = Some (0::real) then None else v) row = row"
      if "\<forall>v\<in>set row. v \<noteq> None \<and> v \<noteq> Some 0"
      using that by (induction row) auto
    have iff: "None \<notin> set (map (\<lambda>v. if v = Some (0::real) then None else v) row) \<longleftrightarrow>
               (\<forall>v\<in>set row. v \<noteq> None \<and> v \<noteq> Some 0)"
      by (induction row) auto
    show ?thesis using Cons.IH[of ls] keep iff by (auto simp: Cons)
  qed
qed

text \<open>
  Claim C8, as the code has it. \<open>dropna()\<close> after the replacement of \<open>0.0\<close> by
  \<open>NaN\<close> keeps exactly the rows in which every portfolio's value is present and not
  zero, unchanged and in order: a row with a zero or a missing value in any column is
  dropped.
\<close>

theorem attribution_rows_dropped:
  assumes "attribution_data s portfolio_ids m tp = Inr D"
  shows "\<exists>T. attribution_table s portfolio_ids m tp = Inr T \<and>
             f_columns T = f_columns D \<and>
             zip (f_index T) (f_rows T) =
               filter (\<lambda>(l, row). \<forall>v\<in>set row. v \<noteq> None \<and> v \<noteq> Some 0)
                      (zip (f_index D) (f_rows D))"
  using assms dropna_replace_lines[of "f_index D" "f_rows D"]
  by (simp add: attribution_table_def dropna_def replace_zero_nan_def Let_def zip_fst_snd)

lemma ex_attribution_data_eval:
  "attribution_data ex_multi [0, 1] PNL None = Inr ex_attribution_data"
  by code_simp

text \<open>
  Claim C8 as stated fails: the row of instrument \<open>x\<close> holds 1 for the first
  portfolio and 0 for the second, and does not reach the renderer.
\<close>

theorem attribution_drops_partly_zero_row:
  "attribution_data ex_multi [0, 1] PNL None = Inr ex_attribution_data \<and>
   row_at ex_attribution_data ''x'' = [Some 1, Some 0] \<and>
   attribution_table ex_multi [0, 1] PNL None = Inr ex_attribution_table \<and>
   f_index ex_attribution_table = [''y'']"
  by code_simp

text \<open>
  Claim C8, amended, on the same two portfolios.
\<close>

theorem attribution_rows_dropped_witness:
  "attribution_table ex_multi [0, 1] PNL None = Inr ex_attribution_table \<and>
   zip (f_index ex_attribution_table) (f_rows ex_attribution_table) = [(''y'', [Some 2, Some 3])]"
proof -
  from attribution_rows_dropped[OF ex_attribution_data_eval]
  obtain T where T: "attribution_table ex_multi [0, 1] PNL None = Inr T"
    and z: "zip (f_index T) (f_rows T) =
               filter (\<lambda>(l, row). \<forall>v\<in>set row. v \<noteq> None \<and> v \<noteq> Some 0)
                      (zip (f_index ex_attribution_data) (f_rows ex_attribution_data))" by blast
  have "attribution_table ex_multi [0, 1] PNL None = Inr ex_attribution_table" by code_simp
  with T have "T = ex_attribution_table" by simp
  with z T show ?thesis by (simp add: ex_attribution_data_def)
qed

text \<open>
  The table never comes back from the renderer: \<open>skip_y_axis\<close> reaches line 169 of
  \<open>plot_bars\<close> both by name and in \<open>**kwargs\<close>, so every call raises.
\<close>

lemma plot_performance_attribution_raises:
  "\<exists>e. plot_performance_attribution strftime fmt barplot a s portfolio_ids m tp = Inl e"
  by (cases "attribution_table s portfolio_ids m tp")
     (auto simp: plot_performance_attribution_def plot_bars_def Let_def split: sum.splits)

subsection \<open>Portfolio indexes\<close>

lemma py_getitem_out_of_range:
  "i < - int (length xs) \<or> int (length xs) \<le> i \<Longrightarrow> py_getitem xs i = Inl IndexError"
  by (auto simp: py_getitem_def)

lemma py_getitem_negative:
  "- int (length xs) \<le> i \<Longrightarrow> i < 0 \<Longrightarrow> py_getitem xs i = py_getitem xs (int (length xs) + i)"
  by (auto simp: py_getitem_def)

lemma py_getitem_in_range:
  "0 \<le> i \<Longrightarrow> i < int (length xs) \<Longrightarrow> py_getitem xs i = Inr (xs ! nat i)"
  by (simp add: py_getitem_def)

text \<open>
  Claim C9, as the code has it. With \<open>n\<close> portfolios, both pairwise operations fail
  with \<open>IndexError\<close> when a requested index is below \<open>-n\<close> or at least \<open>n\<close>; an
  index from \<open>-n\<close> to \<open>-1\<close> counts from the end and selects portfolio \<open>n + index\<close>.
\<close>

theorem pairwise_diff_portfolio_index:
  "((i1 < - int (length (portfolio_datas s)) \<or> int (length (portfolio_datas s)) \<le> i1 \<or>
     i2 < - int (length (portfolio_datas s)) \<or> int (length (portfolio_datas s)) \<le> i2)
      \<longrightarrow> plot_instrument_pnl_diff X s i1 i2 g b tp = Inl IndexError \<and>
          plot_exposures_diff s i1 i2 b tp = Inl IndexError) \<and>
   (- int (length (portfolio_datas s)) \<le> i1 \<and> i1 < 0
      \<longrightarrow> plot_instrument_pnl_diff X s i1 i2 g b tp =
            plot_instrument_pnl_diff X s (int (length (portfolio_datas s)) + i1) i2 g b tp \<and>
          plot_exposures_diff s i1 i2 b tp =
            plot_exposures_diff s (int (length (portfolio_datas s)) + i1) i2 b tp) \<and>
   (- int (length (portfolio_datas s)) \<le> i2 \<and> i2 < 0
      \<longrightarrow> plot_instrument_pnl_diff X s i1 i2 g b tp =
            plot_instrument_pnl_diff X s i1 (int (length (portfolio_datas s)) + i2) g b tp \<and>
          plot_exposures_diff s i1 i2 b tp =
            plot_exposures_diff s i1 (int (length (portfolio_datas s)) + i2) b tp)"
proof (intro conjI impI)
  assume a: "i1 < - int (length (portfolio_datas s)) \<or> int (length (portfolio_datas s)) \<le> i1 \<or>
     i2 < - int (length (portfolio_datas s)) \<or> int (length (portfolio_datas s)) \<le> i2"
  have "py_getitem (portfolio_datas s) i1 = Inl IndexError \<or>
        py_getitem (portfolio_datas s) i2 = Inl IndexError"
    using a py_getitem_out_of_range[of i1 "portfolio_datas s"]
          py_getitem_out_of_range[of i2 "portfolio_datas s"] by blast
  moreover have "py_getitem (portfolio_datas s) i1 = Inl e \<Longrightarrow> e = IndexError" for e
    by (auto simp: py_getitem_def split: if_splits)
  ultimately show "plot_instrument_pnl_diff X s i1 i2 g b tp = Inl IndexError"
    and "plot_exposures_diff s i1 i2 b tp = Inl IndexError"
    by (auto simp: plot_instrument_pnl_diff_def plot_exposures_diff_def split: sum.splits)
next
  assume "- int (length (portfolio_datas s)) \<le> i1 \<and> i1 < 0"
  then have "py_getitem (portfolio_datas s) i1 =
             py_getitem (portfolio_datas s) (int (length (portfolio_datas s)) + i1)"
    using py_getitem_negative by blast
  then show "plot_instrument_pnl_diff X s i1 i2 g b tp =
            plot_instrument_pnl_diff X s (int (length (portfolio_datas s)) + i1) i2 g b tp"
    and "plot_exposures_diff s i1 i2 b tp =
            plot_exposures_diff s (int (length (portfolio_datas s)) + i1) i2 b tp"
    by (simp_all add: plot_instrument_pnl_diff_def plot_exposures_diff_def cong: sum.case_cong)
next
  assume "- int (length (portfolio_datas s)) \<le> i2 \<and> i2 < 0"
  then have "py_getitem (portfolio_datas s) i2 =
             py_getitem (portfolio_datas s) (int (length (portfolio_datas s)) + i2)"
    using py_getitem_negative by blast
  then show "plot_instrument_pnl_diff X s i1 i2 g b tp =
            plot_instrument_pnl_diff X s i1 (int (length (portfolio_datas s)) + i2) g b tp"
    and "plot_exposures_diff s i1 i2 b tp =
            plot_exposures_diff s i1 (int (length (portfolio_datas s)) + i2) b tp"
    by (simp_all add: plot_instrument_pnl_diff_def plot_exposures_diff_def cong: sum.case_cong)
qed

lemma ex_exposures_diff_last:
  "plot_exposures_diff ex_multi 1 0 None None = Inr ex_exposures_diff"
  by code_simp

text \<open>
  Claim C9 as stated fails: with two portfolios the index \<open>-1\<close> is outside
  \<open>0..1\<close>, and the operation returns the difference computed for the last portfolio.
\<close>

theorem negative_index_selects_last:
  "length (portfolio_datas ex_multi) = 2 \<and>
   plot_exposures_diff ex_multi (- 1) 0 None None = Inr ex_exposures_diff \<and>
   plot_exposures_diff ex_multi 1 0 None None = Inr ex_exposures_diff"
  by code_simp

text \<open>
  Claim C9, amended, with two portfolios, at the indexes 2 and \<open>-1\<close>.
\<close>

theorem pairwise_diff_portfolio_index_witness:
  "plot_instrument_pnl_diff ex_ext ex_multi 2 0 False None None = Inl IndexError \<and>
   plot_exposures_diff ex_multi 2 0 None None = Inl IndexError \<and>
   plot_exposures_diff ex_multi (- 1) 0 None None = Inr ex_exposures_diff"
proof -
  have n: "int (length (portfolio_datas ex_multi)) = 2" by (simp add: ex_multi_def)
  note th = pairwise_diff_portfolio_index[of 2 ex_multi 0 ex_ext False None None]
  note th2 = pairwise_diff_portfolio_index[of "- 1" ex_multi 0 ex_ext False None None]
  from th n have "plot_instrument_pnl_diff ex_ext ex_multi 2 0 False None None = Inl IndexError \<and>
   plot_exposures_diff ex_multi 2 0 None None = Inl IndexError" by simp
  moreover from th2 n have "plot_exposures_diff ex_multi (- 1) 0 None None =
      plot_exposures_diff ex_multi 1 0 None None" by simp
  ultimately show ?thesis using ex_exposures_diff_last by simp
qed

subsection \<open>The benchmark column of the asset-class table\<close>

lemma filter_first_column:
  assumes "c \<notin> set rest"
  shows "filter (\<lambda>j. (c # rest) ! j = c) [0..<length (c # rest)] = [0]"
proof -
  have "[0..<length (c # rest)] = 0 # map Suc [0..<length rest]"
    by (simp add: upt_conv_Cons map_Suc_upt del: upt_Suc)
  moreover have "filter (\<lambda>j. (c # rest) ! j = c) (map Suc [0..<length rest]) = []"
    using assms by (auto simp: filter_empty_conv)
  ultimately show ?thesis by simp
qed

lemma getitem_first_column:
  assumes "f_columns bp = c # rest" and "c \<notin> set rest"
  shows "getitem_column bp c = Inr (column_at bp 0)"
  using filter_first_column[OF assms(2)] assms(1)
  by (simp add: getitem_column_def column_at_def Let_def del: upt_Suc)

text \<open>
  Claim C10. With a benchmark table attached whose first column name is not repeated,
  \<open>get_ac_navs\<close> called with a benchmark name concatenates the first column of the
  stored table (restricted to the time period), whatever the name is: the result for
  one name is the result for any other.
\<close>

theorem get_ac_navs_first_benchmark_column:
  assumes "benchmark_prices s = Some bp"
      and "f_columns bp \<noteq> []"
      and "hd (f_columns bp) \<notin> set (tl (f_columns bp))"
  shows "get_ac_navs X s i (Some b) tp =
           (case py_getitem (portfolio_datas s) i of
              Inl e \<Rightarrow> Inl e
            | Inr p \<Rightarrow>
                pd_concat union_sorted
                  [get_ac_navs_of p tp,
                   (case tp of None \<Rightarrow> column_at bp 0 | Some t \<Rightarrow> locate X t (column_at bp 0))])
         \<and> get_ac_navs X s i (Some b) tp = get_ac_navs X s i (Some b') tp"
proof -
  from assms(2) obtain c rest where cols: "f_columns bp = c # rest" by (cases "f_columns bp") auto
  with assms(3) have u: "c \<notin> set rest" by simp
  have c0: "py_getitem (f_columns bp) 0 = Inr c" by (simp add: py_getitem_def cols)
  have g: "getitem_column bp c = Inr (column_at bp 0)" by (rule getitem_first_column[OF cols u])
  have "get_benchmark_price X s c tp =
          Inr (case tp of None \<Rightarrow> column_at bp 0 | Some t \<Rightarrow> locate X t (column_at bp 0))"
    by (simp add: get_benchmark_price_def assms(1) g)
  then show ?thesis
    by (simp add: get_ac_navs_def assms(1) c0 Let_def split: sum.splits)
qed

lemma ex_concat_first_column:
  "pd_concat union_sorted [get_ac_navs_of ex_portfolio_a None, column_at ex_benchmarks 0]
     = Inr ex_ac_navs"
  by code_simp

text \<open>
  Claim C10 on the benchmark table with the columns \<open>SPY\<close> and \<open>TLT\<close>: asking for
  \<open>TLT\<close> adds \<open>SPY\<close>.
\<close>

theorem get_ac_navs_first_benchmark_column_witness:
  "get_ac_navs ex_ext ex_multi_bench 0 (Some ''TLT'') None = Inr ex_ac_navs \<and>
   get_ac_navs ex_ext ex_multi_bench 0 (Some ''TLT'') None =
     get_ac_navs ex_ext ex_multi_bench 0 (Some ''SPY'') None"
proof -
  have a: "benchmark_prices ex_multi_bench = Some ex_benchmarks"
    by (simp add: ex_multi_bench_def)
  have b: "f_columns ex_benchmarks \<noteq> []" by (simp add: ex_benchmarks_def)
  have c: "hd (f_columns ex_benchmarks) \<notin> set (tl (f_columns ex_benchmarks))"
    by (simp add: ex_benchmarks_def)
  have p: "py_getitem (portfolio_datas ex_multi_bench) 0 = Inr ex_portfolio_a"
    by (simp add: py_getitem_def ex_multi_bench_def ex_multi_def)
  note th = get_ac_navs_first_benchmark_column[OF a b c, of ex_ext 0 "''TLT''" None "''SPY''"]
  from th have 1: "get_ac_navs ex_ext ex_multi_bench 0 (Some ''TLT'') None = Inr ex_ac_navs"
    by (simp add: p ex_concat_first_column)
  from th have 2: "get_ac_navs ex_ext ex_multi_bench 0 (Some ''TLT'') None =
     get_ac_navs ex_ext ex_multi_bench 0 (Some ''SPY'') None"
    by (rule conjunct2)
  from 1 2 show ?thesis by (rule conjI)
qed


end
